theory Spec2Isabelle
  imports Main "HOL-Library.Word"
begin

section \<open>The Bao I/O dispatcher (io\_dispatcher.c)\<close>

text \<open>
  A shallow embedding of \<^verbatim>\<open>src/iodispatcher/io_dispatcher.c\<close>. The C file keeps two
  global tables indexed by the device model (DM) identifier, talks to the hypervisor
  through one hypercall, and uses the Linux workqueue API and the driver's interrupt
  controller glue. Everything the file mutates is a field of one state record that every
  function takes and returns; calls whose order matters append an event to a trace.
\<close>

subsection \<open>Data\<close>

type_synonym u64 = "64 word"
type_synonym u32 = "32 word"

text \<open>
  \<^verbatim>\<open>struct bao_virtio_request\<close>, with the five fields the file assigns. The headers
  \<^verbatim>\<open>bao.h\<close> and \<^verbatim>\<open>hypercall.h\<close> are not among the sources; the fields are taken
  as 64-bit unsigned values, and the identifier of a DM (printed with \<^verbatim>\<open>%u\<close>) as a
  32-bit unsigned value. The field \<^verbatim>\<open>value\<close> is named \<open>req_value\<close> here.
\<close>

record bao_virtio_request =
  dm_id :: u64
  addr :: u64
  op :: u64
  req_value :: u64
  request_id :: u64

text \<open>\<^verbatim>\<open>struct remio_hypercall_ret\<close>: the three fields the file reads.\<close>

record remio_hypercall_ret =
  hyp_ret :: u64
  remio_hyp_ret :: u64
  pending_requests :: u64

text \<open>
  Modelled from the spec: \<^verbatim>\<open>struct bao_io_client\<close> is declared outside the sources.
  The spec describes a client as an ordered queue of requests (FIFO) with a wait queue for
  its consumer, registered for an address predicate; its scenario uses a half-open address
  range. A client is the range \<open>[range_start, range_end)\<close> and its request list.
\<close>

record bao_io_client =
  range_start :: u64
  range_end :: u64
  virtio_requests :: "bao_virtio_request list"

text \<open>\<^verbatim>\<open>struct bao_dm\<close>: the identifier \<^verbatim>\<open>info.id\<close> and the list of I/O clients.\<close>

record bao_dm =
  info_id :: u32
  io_clients :: "bao_io_client list"

text \<open>
  One entry of \<^verbatim>\<open>io_dispatcher_work[]\<close>: the \<^verbatim>\<open>dm\<close> pointer (\<open>None\<close> is the NULL of
  the zero-initialised static array) and the state of the embedded \<^verbatim>\<open>work_struct\<close>:
  queued and not yet started (\<open>work_pending\<close>), or being executed by the worker
  (\<open>work_running\<close>).
\<close>

record bao_io_dispatcher_work =
  work_dm :: "nat option"
  work_pending :: bool
  work_running :: bool

text \<open>
  One entry of \<^verbatim>\<open>bao_io_dispatcher_wq[]\<close>, a \<^verbatim>\<open>struct workqueue_struct *\<close>: NULL, a
  live workqueue, or the pointer the table still holds after \<^verbatim>\<open>destroy_workqueue\<close>
  (the file never resets the entry).
\<close>

datatype wq_ptr = Wq_null | Wq_live | Wq_freed

text \<open>Calls whose order the claims speak about, in the order they happen.\<close>

datatype event =
    Ev_hypercall bao_virtio_request
  | Ev_down_read nat
  | Ev_up_read nat
  | Ev_push_request nat nat bao_virtio_request
  | Ev_wake_up nat nat
  | Ev_setup_handler
  | Ev_remove_handler
  | Ev_queue_work nat
  | Ev_drain_workqueue nat
  | Ev_destroy_workqueue nat

text \<open>
  What the C program cannot recover from: an access outside a table (undefined behaviour,
  no error is returned), a NULL pointer handed to the kernel, a freed workqueue used again.
\<close>

datatype fault = Out_of_bounds_access | Null_pointer | Use_after_free

text \<open>
  The state: the hypervisor's side (of any type \<open>'h\<close>), the DM structures by address,
  the two static tables, the interrupt controller's handler slot, and the trace.
  The tables are read and written only below \<open>BAO_IO_MAX_DMS\<close> (see \<open>externals\<close>).
\<close>

record 'h sys =
  hyp :: 'h
  dm_store :: "nat \<Rightarrow> bao_dm"
  bao_io_dispatcher_wq :: "nat \<Rightarrow> wq_ptr"
  io_dispatcher_work :: "nat \<Rightarrow> bao_io_dispatcher_work"
  intc_handler :: bool
  trace :: "event list"

text \<open>
  What the file takes from outside: the constants \<^verbatim>\<open>BAO_IO_MAX_DMS\<close> and
  \<^verbatim>\<open>BAO_IO_ASK\<close> of \<^verbatim>\<open>bao.h\<close>, and the hypercall. \<^verbatim>\<open>bao_hypercall_remio(&req)\<close>
  returns the three status words and may rewrite the request it was given.
\<close>

record 'h externals =
  BAO_IO_MAX_DMS :: nat
  BAO_IO_ASK :: u64
  bao_hypercall_remio ::
    "'h \<Rightarrow> bao_virtio_request \<Rightarrow> remio_hypercall_ret \<times> bao_virtio_request \<times> 'h"

text \<open>The Linux error numbers the file returns negated, as values of C's \<^verbatim>\<open>int\<close>.\<close>

definition ENOMEM :: "32 word" where "ENOMEM = 12"
definition EFAULT :: "32 word" where "EFAULT = 14"
definition EEXIST :: "32 word" where "EEXIST = 17"

subsection \<open>The client registry and the client queue\<close>

text \<open>
  Modelled from the spec: \<^verbatim>\<open>bao_io_client_find\<close> is defined outside the sources. The
  spec's registry maps an address predicate to the client owning it, and a lookup for an
  address no client claims yields "not found". The lookup returns the position of the
  first client whose range holds the request's address.
\<close>

definition bao_io_request_in_range :: "bao_io_client \<Rightarrow> bao_virtio_request \<Rightarrow> bool" where
  "bao_io_request_in_range c req = (range_start c \<le> addr req \<and> addr req < range_end c)"

fun client_find_list :: "bao_io_client list \<Rightarrow> bao_virtio_request \<Rightarrow> nat option" where
  "client_find_list [] req = None"
| "client_find_list (c # cs) req =
     (if bao_io_request_in_range c req then Some 0
      else map_option Suc (client_find_list cs req))"

definition bao_io_client_find :: "bao_dm \<Rightarrow> bao_virtio_request \<Rightarrow> nat option" where
  "bao_io_client_find dm req = client_find_list (io_clients dm) req"

definition add_trace :: "event \<Rightarrow> 'h sys \<Rightarrow> 'h sys" where
  "add_trace e s = s\<lparr>trace := trace s @ [e]\<rparr>"

text \<open>
  Modelled from the spec: \<^verbatim>\<open>bao_io_client_push_request\<close> is defined outside the sources.
  The spec's push appends to the tail of the client's queue (the call site says "add the
  request to the end of the virtio\_request list").
\<close>

definition bao_io_client_push_request ::
    "nat \<Rightarrow> nat \<Rightarrow> bao_virtio_request \<Rightarrow> 'h sys \<Rightarrow> 'h sys" where
  "bao_io_client_push_request p c req s =
     (let dm = dm_store s p;
          cl = io_clients dm ! c;
          cl' = cl\<lparr>virtio_requests := virtio_requests cl @ [req]\<rparr>
      in add_trace (Ev_push_request p c req)
           (s\<lparr>dm_store := (dm_store s)(p := dm\<lparr>io_clients := (io_clients dm)[c := cl']\<rparr>)\<rparr>))"

text \<open>
  \<^verbatim>\<open>wake_up_interruptible(&client->wq)\<close>, and the reader side of
  \<^verbatim>\<open>dm->io_clients_lock\<close>: the consumer thread and the writers of the registry are
  outside the file, so the calls are kept as events.
\<close>

definition wake_up_interruptible :: "nat \<Rightarrow> nat \<Rightarrow> 'h sys \<Rightarrow> 'h sys" where
  "wake_up_interruptible p c s = add_trace (Ev_wake_up p c) s"

definition down_read :: "nat \<Rightarrow> 'h sys \<Rightarrow> 'h sys" where
  "down_read p s = add_trace (Ev_down_read p) s"

definition up_read :: "nat \<Rightarrow> 'h sys \<Rightarrow> 'h sys" where
  "up_read p s = add_trace (Ev_up_read p) s"

subsection \<open>bao\_dispatch\_io and the drain loop\<close>

text \<open>
  The request the function sends: the DM's identifier, \<^verbatim>\<open>BAO_IO_ASK\<close>, and the other
  fields cleared.
\<close>

definition ask_request :: "'h externals \<Rightarrow> bao_dm \<Rightarrow> bao_virtio_request" where
  "ask_request X dm =
     \<lparr>dm_id = ucast (info_id dm), addr = 0, op = BAO_IO_ASK X, req_value = 0, request_id = 0\<rparr>"

text \<open>The hypercall: the hypervisor's answer, with the call recorded.\<close>

definition do_hypercall ::
    "'h externals \<Rightarrow> bao_virtio_request \<Rightarrow> 'h sys
      \<Rightarrow> remio_hypercall_ret \<times> bao_virtio_request \<times> 'h sys" where
  "do_hypercall X req s =
     (case bao_hypercall_remio X (hyp s) req of
        (ret, req', h') \<Rightarrow> (ret, req', add_trace (Ev_hypercall req) (s\<lparr>hyp := h'\<rparr>)))"

text \<open>
  \<^verbatim>\<open>int bao_dispatch_io(struct bao_dm* dm)\<close>, for the DM at address \<open>p\<close>. The result is
  C's \<^verbatim>\<open>int\<close> (read with \<open>sint\<close>); \<^verbatim>\<open>return ret.pending_requests\<close> truncates.
\<close>

definition bao_dispatch_io :: "'h externals \<Rightarrow> nat \<Rightarrow> 'h sys \<Rightarrow> 32 word \<times> 'h sys" where
  "bao_dispatch_io X p s =
     (case do_hypercall X (ask_request X (dm_store s p)) s of
        (ret, req, s1) \<Rightarrow>
          if hyp_ret ret \<noteq> 0 then (- EFAULT, s1)
          else if remio_hyp_ret ret \<noteq> 0 then (- EFAULT, s1)
          else
            (let s2 = down_read p s1 in
             case bao_io_client_find (dm_store s2 p) req of
               None \<Rightarrow> (- EEXIST, up_read p s2)
             | Some c \<Rightarrow>
                 (let s3 = bao_io_client_push_request p c req s2;
                      s4 = wake_up_interruptible p c s3;
                      s5 = up_read p s4
                  in (ucast (pending_requests ret), s5))))"

text \<open>
  \<^verbatim>\<open>io_dispatcher\<close>: \<^verbatim>\<open>while (bao_dispatch_io(dm) > 0);\<close>. Nothing bounds the number
  of turns (the hypervisor may report pending requests for ever), so the loop is a partial
  function: \<open>None\<close> is the pass that never ends.
\<close>

partial_function (option) io_dispatcher :: "'h externals \<Rightarrow> nat \<Rightarrow> 'h sys \<Rightarrow> 'h sys option" where
  "io_dispatcher X p s =
     (case bao_dispatch_io X p s of
        (r, s') \<Rightarrow> if 0 < sint r then io_dispatcher X p s' else Some s')"

subsection \<open>The interrupt controller's handler slot\<close>

text \<open>
  Modelled from the spec: \<^verbatim>\<open>bao_intc_setup_handler\<close> and \<^verbatim>\<open>bao_intc_remove_handler\<close>
  are defined outside the sources. The spec's notification subsystem offers
  \<^verbatim>\<open>install(callback)\<close> and \<^verbatim>\<open>remove()\<close>; as in the calls of this file, neither names a
  DM, so there is one slot for all DMs. The only handler the file ever installs is
  \<^verbatim>\<open>io_dispatcher_intc_handler\<close>, so the slot is a flag.
\<close>

definition bao_intc_setup_handler :: "'h sys \<Rightarrow> 'h sys" where
  "bao_intc_setup_handler s = add_trace Ev_setup_handler (s\<lparr>intc_handler := True\<rparr>)"

definition bao_intc_remove_handler :: "'h sys \<Rightarrow> 'h sys" where
  "bao_intc_remove_handler s = add_trace Ev_remove_handler (s\<lparr>intc_handler := False\<rparr>)"

subsection \<open>The workqueue API\<close>

text \<open>\<^verbatim>\<open>dm->info.id\<close> as a table index.\<close>

definition dm_index :: "'h sys \<Rightarrow> nat \<Rightarrow> nat" where
  "dm_index s p = unat (info_id (dm_store s p))"

definition set_work ::
    "nat \<Rightarrow> (bao_io_dispatcher_work \<Rightarrow> bao_io_dispatcher_work) \<Rightarrow> 'h sys \<Rightarrow> 'h sys" where
  "set_work i f s = s\<lparr>io_dispatcher_work := (io_dispatcher_work s)(i := f (io_dispatcher_work s i))\<rparr>"

text \<open>
  \<^verbatim>\<open>alloc_workqueue\<close> may fail; whether it does is an input of the model.
\<close>

definition alloc_workqueue :: "bool \<Rightarrow> wq_ptr" where
  "alloc_workqueue ok = (if ok then Wq_live else Wq_null)"

text \<open>
  \<^verbatim>\<open>queue_work(bao_io_dispatcher_wq[i], &io_dispatcher_work[i].work)\<close>: Linux queues a work
  item only when it is not already pending, and dereferences the workqueue.
\<close>

definition queue_work :: "nat \<Rightarrow> 'h sys \<Rightarrow> fault + 'h sys" where
  "queue_work i s =
     (case bao_io_dispatcher_wq s i of
        Wq_null \<Rightarrow> Inl Null_pointer
      | Wq_freed \<Rightarrow> Inl Use_after_free
      | Wq_live \<Rightarrow>
          Inr (if work_pending (io_dispatcher_work s i) then s
               else add_trace (Ev_queue_work i) (set_work i (\<lambda>w. w\<lparr>work_pending := True\<rparr>) s)))"

text \<open>\<^verbatim>\<open>INIT_WORK\<close>: a fresh \<^verbatim>\<open>work_struct\<close>, not pending.\<close>

definition INIT_WORK :: "nat \<Rightarrow> 'h sys \<Rightarrow> 'h sys" where
  "INIT_WORK i s = set_work i (\<lambda>w. w\<lparr>work_pending := False\<rparr>) s"

text \<open>
  The worker thread of workqueue \<open>i\<close>. It takes the pending work item off the queue
  (\<open>worker_begin\<close>; Linux never runs one work item twice at a time), and then runs
  \<^verbatim>\<open>io_dispatcher\<close>: one turn of its loop at a time (\<open>worker_iter\<close>), or all that is left
  of the pass (\<open>worker_finish\<close>). The loop keeps nothing between two turns but the DM, so
  what is left of a pass in flight is the loop itself.
\<close>

definition worker_begin :: "nat \<Rightarrow> 'h sys \<Rightarrow> 'h sys" where
  "worker_begin i s =
     (if bao_io_dispatcher_wq s i = Wq_live \<and> work_pending (io_dispatcher_work s i)
         \<and> \<not> work_running (io_dispatcher_work s i)
      then set_work i (\<lambda>w. w\<lparr>work_pending := False, work_running := True\<rparr>) s
      else s)"

definition worker_iter :: "'h externals \<Rightarrow> nat \<Rightarrow> 'h sys \<Rightarrow> fault + 'h sys" where
  "worker_iter X i s =
     (if work_running (io_dispatcher_work s i) then
        (case work_dm (io_dispatcher_work s i) of
           None \<Rightarrow> Inl Null_pointer
         | Some p \<Rightarrow>
             (case bao_dispatch_io X p s of
                (r, s') \<Rightarrow>
                  Inr (if 0 < sint r then s'
                       else set_work i (\<lambda>w. w\<lparr>work_running := False\<rparr>) s')))
      else Inr s)"

definition worker_finish :: "'h externals \<Rightarrow> nat \<Rightarrow> 'h sys \<Rightarrow> (fault + 'h sys) option" where
  "worker_finish X i s =
     (case work_dm (io_dispatcher_work s i) of
        None \<Rightarrow> Some (Inl Null_pointer)
      | Some p \<Rightarrow>
          (case io_dispatcher X p s of
             None \<Rightarrow> None
           | Some s' \<Rightarrow> Some (Inr (set_work i (\<lambda>w. w\<lparr>work_running := False\<rparr>) s'))))"

text \<open>
  \<^verbatim>\<open>drain_workqueue(bao_io_dispatcher_wq[i])\<close>: waits until the workqueue is empty, that
  is until the pass in flight, if any, and then the queued pass, if any, have ended.
\<close>

definition drain_workqueue :: "'h externals \<Rightarrow> nat \<Rightarrow> 'h sys \<Rightarrow> (fault + 'h sys) option" where
  "drain_workqueue X i s =
     (case bao_io_dispatcher_wq s i of
        Wq_null \<Rightarrow> Some (Inl Null_pointer)
      | Wq_freed \<Rightarrow> Some (Inl Use_after_free)
      | Wq_live \<Rightarrow>
          (let s0 = add_trace (Ev_drain_workqueue i) s in
           case (if work_running (io_dispatcher_work s0 i) then worker_finish X i s0
                 else Some (Inr s0)) of
             None \<Rightarrow> None
           | Some (Inl f) \<Rightarrow> Some (Inl f)
           | Some (Inr s1) \<Rightarrow>
               if work_pending (io_dispatcher_work s1 i)
               then worker_finish X i (worker_begin i s1)
               else Some (Inr s1)))"

text \<open>
  \<^verbatim>\<open>destroy_workqueue\<close>: drains the workqueue, then frees it. The table entry is left as
  it is, a pointer to freed memory.
\<close>

definition destroy_workqueue :: "'h externals \<Rightarrow> nat \<Rightarrow> 'h sys \<Rightarrow> (fault + 'h sys) option" where
  "destroy_workqueue X i s =
     (case drain_workqueue X i s of
        None \<Rightarrow> None
      | Some (Inl f) \<Rightarrow> Some (Inl f)
      | Some (Inr s1) \<Rightarrow>
          Some (Inr (add_trace (Ev_destroy_workqueue i)
                  (s1\<lparr>bao_io_dispatcher_wq := (bao_io_dispatcher_wq s1)(i := Wq_freed)\<rparr>))))"

subsection \<open>The lifecycle entry points\<close>

text \<open>\<^verbatim>\<open>io_dispatcher_intc_handler(dm)\<close>.\<close>

definition io_dispatcher_intc_handler :: "'h externals \<Rightarrow> nat \<Rightarrow> 'h sys \<Rightarrow> fault + 'h sys" where
  "io_dispatcher_intc_handler X p s =
     (let i = dm_index s p in
      if i < BAO_IO_MAX_DMS X then queue_work i s else Inl Out_of_bounds_access)"

text \<open>\<^verbatim>\<open>bao_io_dispatcher_pause(dm)\<close>.\<close>

definition bao_io_dispatcher_pause :: "'h externals \<Rightarrow> nat \<Rightarrow> 'h sys \<Rightarrow> (fault + 'h sys) option" where
  "bao_io_dispatcher_pause X p s =
     (let s1 = bao_intc_remove_handler s;
          i = dm_index s1 p
      in if i < BAO_IO_MAX_DMS X then drain_workqueue X i s1
         else Some (Inl Out_of_bounds_access))"

text \<open>\<^verbatim>\<open>bao_io_dispatcher_resume(dm)\<close>.\<close>

definition bao_io_dispatcher_resume :: "'h externals \<Rightarrow> nat \<Rightarrow> 'h sys \<Rightarrow> fault + 'h sys" where
  "bao_io_dispatcher_resume X p s =
     (let s1 = bao_intc_setup_handler s;
          i = dm_index s1 p
      in if i < BAO_IO_MAX_DMS X then queue_work i s1 else Inl Out_of_bounds_access)"

text \<open>\<^verbatim>\<open>bao_io_dispatcher_destroy(dm)\<close>.\<close>

definition bao_io_dispatcher_destroy ::
    "'h externals \<Rightarrow> nat \<Rightarrow> 'h sys \<Rightarrow> (fault + 'h sys) option" where
  "bao_io_dispatcher_destroy X p s =
     (let i = dm_index s p in
      if i < BAO_IO_MAX_DMS X then
        (if bao_io_dispatcher_wq s i \<noteq> Wq_null then
           (case bao_io_dispatcher_pause X p s of
              None \<Rightarrow> None
            | Some (Inl f) \<Rightarrow> Some (Inl f)
            | Some (Inr s1) \<Rightarrow>
                (case destroy_workqueue X (dm_index s1 p) s1 of
                   None \<Rightarrow> None
                 | Some (Inl f) \<Rightarrow> Some (Inl f)
                 | Some (Inr s2) \<Rightarrow> Some (Inr (bao_intc_remove_handler s2))))
         else Some (Inr s))
      else Some (Inl Out_of_bounds_access))"

text \<open>
  \<^verbatim>\<open>bao_io_dispatcher_init(dm)\<close>; \<open>ok\<close> says whether \<^verbatim>\<open>alloc_workqueue\<close> succeeds. The
  result is the returned \<^verbatim>\<open>int\<close> and the state.
\<close>

definition bao_io_dispatcher_init ::
    "'h externals \<Rightarrow> bool \<Rightarrow> nat \<Rightarrow> 'h sys \<Rightarrow> fault + (32 word \<times> 'h sys)" where
  "bao_io_dispatcher_init X ok p s =
     (let i = dm_index s p in
      if i < BAO_IO_MAX_DMS X then
        (let s1 = s\<lparr>bao_io_dispatcher_wq := (bao_io_dispatcher_wq s)(i := alloc_workqueue ok)\<rparr>
         in if bao_io_dispatcher_wq s1 i = Wq_null then Inr (- ENOMEM, s1)
            else
              (let s2 = set_work i (\<lambda>w. w\<lparr>work_dm := Some p\<rparr>) s1;
                   s3 = INIT_WORK i s2;
                   s4 = bao_intc_setup_handler s3
               in Inr (0, s4)))
      else Inl Out_of_bounds_access)"

text \<open>\<^verbatim>\<open>bao_io_dispatcher_setup\<close> and \<^verbatim>\<open>bao_io_dispatcher_remove\<close> do nothing.\<close>

definition bao_io_dispatcher_setup :: "'h sys \<Rightarrow> 32 word \<times> 'h sys" where
  "bao_io_dispatcher_setup s = (0, s)"

definition bao_io_dispatcher_remove :: "'h sys \<Rightarrow> 'h sys" where
  "bao_io_dispatcher_remove s = s"

subsection \<open>The system around the file\<close>

text \<open>
  Modelled from the spec: the interrupt controller glue is defined outside the sources.
  The spec's notification source signals that a request is pending for a DM; the file's
  handler is documented as called by the interrupt controller with the DM that triggered
  the interrupt. An interrupt for the DM at \<open>p\<close> calls the installed handler, if any.
\<close>

definition bao_intc_interrupt :: "'h externals \<Rightarrow> nat \<Rightarrow> 'h sys \<Rightarrow> fault + 'h sys" where
  "bao_intc_interrupt X p s =
     (if intc_handler s then io_dispatcher_intc_handler X p s else Inr s)"

text \<open>
  What can happen, one after the other: an interrupt, a step of a worker thread, or a call
  of an entry point by the DM management code.
\<close>

datatype action =
    Interrupt nat
  | Worker_begin nat
  | Worker_iter nat
  | Call_init bool nat
  | Call_resume nat
  | Call_pause nat
  | Call_destroy nat

fun step :: "'h externals \<Rightarrow> action \<Rightarrow> 'h sys \<Rightarrow> (fault + 'h sys) option" where
  "step X (Interrupt p) s = Some (bao_intc_interrupt X p s)"
| "step X (Worker_begin i) s = Some (Inr (worker_begin i s))"
| "step X (Worker_iter i) s = Some (worker_iter X i s)"
| "step X (Call_init ok p) s =
     Some (case bao_io_dispatcher_init X ok p s of Inl f \<Rightarrow> Inl f | Inr (r, s') \<Rightarrow> Inr s')"
| "step X (Call_resume p) s = Some (bao_io_dispatcher_resume X p s)"
| "step X (Call_pause p) s = bao_io_dispatcher_pause X p s"
| "step X (Call_destroy p) s = bao_io_dispatcher_destroy X p s"

fun run :: "'h externals \<Rightarrow> action list \<Rightarrow> 'h sys \<Rightarrow> (fault + 'h sys) option" where
  "run X [] s = Some (Inr s)"
| "run X (a # as) s =
     (case step X a s of
        None \<Rightarrow> None
      | Some (Inl f) \<Rightarrow> Some (Inl f)
      | Some (Inr s') \<Rightarrow> run X as s')"

subsection \<open>Auxiliary notions for the proofs\<close>

text \<open>The state right after the hypercall of \<open>bao_dispatch_io\<close>, when the hypervisor moved to \<open>h'\<close>.\<close>

definition after_hypercall :: "'h externals \<Rightarrow> nat \<Rightarrow> 'h sys \<Rightarrow> 'h \<Rightarrow> 'h sys" where
  "after_hypercall X p s h' = add_trace (Ev_hypercall (ask_request X (dm_store s p))) (s\<lparr>hyp := h'\<rparr>)"

text \<open>
  What dispatching for the DM at \<open>p\<close> leaves alone: both tables, the handler slot, every
  other DM and every identifier; the trace only grows.
\<close>

definition dispatch_frame_rel :: "nat \<Rightarrow> 'h sys \<Rightarrow> 'h sys \<Rightarrow> bool" where
  "dispatch_frame_rel p s s' \<longleftrightarrow>
     bao_io_dispatcher_wq s' = bao_io_dispatcher_wq s
    \<and> io_dispatcher_work s' = io_dispatcher_work s
    \<and> intc_handler s' = intc_handler s
    \<and> (\<forall>q. q \<noteq> p \<longrightarrow> dm_store s' q = dm_store s q)
    \<and> (\<forall>q. info_id (dm_store s' q) = info_id (dm_store s q))
    \<and> (\<exists>es. trace s' = trace s @ es)"

text \<open>
  Every entry of the work table that holds a DM holds one whose identifier is the entry's
  index: \<open>bao_io_dispatcher_init\<close> writes the entry at \<open>dm->info.id\<close>, and nothing changes
  an identifier.
\<close>

definition work_dm_ok :: "'h sys \<Rightarrow> bool" where
  "work_dm_ok s \<longleftrightarrow> (\<forall>i p. work_dm (io_dispatcher_work s i) = Some p \<longrightarrow> dm_index s p = i)"

text \<open>
  What draining the workqueue \<open>i\<close> leaves alone: every other entry of both tables, the DM
  held by the work item, every identifier, and every DM but the one the work item holds.
\<close>

definition work_frame_rel :: "nat \<Rightarrow> 'h sys \<Rightarrow> 'h sys \<Rightarrow> bool" where
  "work_frame_rel i s s' \<longleftrightarrow>
     (\<forall>j. j \<noteq> i \<longrightarrow> io_dispatcher_work s' j = io_dispatcher_work s j
                      \<and> bao_io_dispatcher_wq s' j = bao_io_dispatcher_wq s j)
   \<and> work_dm (io_dispatcher_work s' i) = work_dm (io_dispatcher_work s i)
   \<and> (\<forall>q. info_id (dm_store s' q) = info_id (dm_store s q))
   \<and> (\<forall>q. work_dm (io_dispatcher_work s i) \<noteq> Some q \<longrightarrow> dm_store s' q = dm_store s q)"

text \<open>The calls that install the interrupt handler.\<close>

fun installs_handler :: "action \<Rightarrow> bool" where
  "installs_handler (Call_init ok p) = True"
| "installs_handler (Call_resume p) = True"
| "installs_handler (Interrupt p) = False"
| "installs_handler (Worker_begin i) = False"
| "installs_handler (Worker_iter i) = False"
| "installs_handler (Call_pause p) = False"
| "installs_handler (Call_destroy p) = False"

text \<open>
  The DM at \<open>p\<close> is quiesced: no handler is installed, and the work item of its workqueue is
  neither queued nor running.
\<close>

definition quiesced :: "nat \<Rightarrow> 'h sys \<Rightarrow> bool" where
  "quiesced p s \<longleftrightarrow>
     work_dm_ok s \<and> \<not> intc_handler s
   \<and> \<not> work_pending (io_dispatcher_work s (dm_index s p))
   \<and> \<not> work_running (io_dispatcher_work s (dm_index s p))"

text \<open>What the examples look at: the queues of a DM's clients, and whether a work item is queued.\<close>

definition client_queues :: "nat \<Rightarrow> 'h sys \<Rightarrow> bao_virtio_request list list" where
  "client_queues p s = map virtio_requests (io_clients (dm_store s p))"

definition pending_at :: "nat \<Rightarrow> 'h sys \<Rightarrow> bool" where
  "pending_at i s = work_pending (io_dispatcher_work s i)"

subsection \<open>An environment for the examples\<close>

text \<open>
  A hypervisor that answers from a script, one answer per hypercall: a request (address,
  operation, value, request identifier, and the number of requests still pending) written
  into the request structure with both status words zero, or a failure with the two status
  words given. An exhausted script answers with a failure.
\<close>

datatype answer = Answer_request u64 u64 u64 u64 u64 | Answer_failure u64 u64

definition scripted_remio ::
    "answer list \<Rightarrow> bao_virtio_request \<Rightarrow> remio_hypercall_ret \<times> bao_virtio_request \<times> answer list" where
  "scripted_remio h req =
     (case h of
        [] \<Rightarrow> (\<lparr>hyp_ret = 0, remio_hyp_ret = 1, pending_requests = 0\<rparr>, req, [])
      | Answer_request a o' v i n # h' \<Rightarrow>
          (\<lparr>hyp_ret = 0, remio_hyp_ret = 0, pending_requests = n\<rparr>,
           req\<lparr>addr := a, op := o', req_value := v, request_id := i\<rparr>, h')
      | Answer_failure e1 e2 # h' \<Rightarrow>
          (\<lparr>hyp_ret = e1, remio_hyp_ret = e2, pending_requests = 0\<rparr>, req, h'))"

definition example_X :: "answer list externals" where
  "example_X = \<lparr>BAO_IO_MAX_DMS = 16, BAO_IO_ASK = 2, bao_hypercall_remio = scripted_remio\<rparr>"

text \<open>
  The state before any call: the DM at address \<open>p\<close> has the identifier \<open>p\<close> and one
  client, registered for the addresses from 0x1000 up to 0x2000 (excluded); the tables
  are zeroed and no handler is installed.
\<close>

definition example_client :: bao_io_client where
  "example_client = \<lparr>range_start = 0x1000, range_end = 0x2000, virtio_requests = []\<rparr>"

definition boot :: "answer list \<Rightarrow> answer list sys" where
  "boot script =
     \<lparr>hyp = script,
      dm_store = (\<lambda>p. \<lparr>info_id = of_nat p, io_clients = [example_client]\<rparr>),
      bao_io_dispatcher_wq = (\<lambda>i. Wq_null),
      io_dispatcher_work = (\<lambda>i. \<lparr>work_dm = None, work_pending = False, work_running = False\<rparr>),
      intc_handler = False,
      trace = []\<rparr>"

text \<open>The request the DM with identifier 3 sends, and two requests the hypervisor hands out.\<close>

definition ask3 :: bao_virtio_request where
  "ask3 = \<lparr>dm_id = 3, addr = 0, op = 2, req_value = 0, request_id = 0\<rparr>"

definition req_a :: bao_virtio_request where
  "req_a = \<lparr>dm_id = 3, addr = 0x1000, op = 1, req_value = 5, request_id = 1\<rparr>"

definition req_b :: bao_virtio_request where
  "req_b = \<lparr>dm_id = 3, addr = 0x1800, op = 1, req_value = 9, request_id = 2\<rparr>"

text \<open>
  The scenario of the spec for the DM with identifier 3: two requests its client owns
  (2, then 1 requests reported pending), a request no client owns (none pending), and
  then an answer without a request. The file has no outcome of its own for "no request":
  here it is a hypercall with a status word that is not zero.
\<close>

definition c3_script :: "answer list" where
  "c3_script = [Answer_request 0x1000 1 5 1 2, Answer_request 0x1800 1 9 2 1,
     Answer_request 0x3000 1 1 3 0, Answer_failure 0 1]"

text \<open>A request no client owns, with 5 requests reported pending, and then one the client owns.\<close>

definition c2_script :: "answer list" where
  "c2_script = [Answer_request 0x3000 1 1 1 5, Answer_request 0x1000 1 5 2 0]"


text \<open>The request for address 0x1000 as the DM with identifier 0 receives it.\<close>

definition req_0 :: bao_virtio_request where
  "req_0 = \<lparr>dm_id = 0, addr = 0x1000, op = 1, req_value = 5, request_id = 1\<rparr>"

text \<open>The state a list of actions leads to, when it leads to one.\<close>

definition run_state :: "'h externals \<Rightarrow> action list \<Rightarrow> 'h sys \<Rightarrow> 'h sys" where
  "run_state X acts s = (case run X acts s of Some (Inr s') \<Rightarrow> s' | _ \<Rightarrow> s)"

text \<open>Actions after a pause of the DM at address 0, none of which installs the handler.\<close>

definition c5_acts :: "action list" where
  "c5_acts = [Interrupt 0, Worker_begin 0, Worker_iter 0, Call_pause 0, Call_destroy 1]"

section \<open>Properties\<close>

subsection \<open>One dispatch\<close>


lemma client_find_list_Some:
  "client_find_list cs req = Some c \<Longrightarrow> c < length cs \<and> bao_io_request_in_range (cs ! c) req"
  by (induction cs arbitrary: c) (auto split: if_splits)

lemma add_trace_simps [simp]:
  "hyp (add_trace e s) = hyp s"
  "dm_store (add_trace e s) = dm_store s"
  "bao_io_dispatcher_wq (add_trace e s) = bao_io_dispatcher_wq s"
  "io_dispatcher_work (add_trace e s) = io_dispatcher_work s"
  "intc_handler (add_trace e s) = intc_handler s"
  "trace (add_trace e s) = trace s @ [e]"
  by (simp_all add: add_trace_def)

lemma push_request_simps [simp]:
  "hyp (bao_io_client_push_request p c req s) = hyp s"
  "bao_io_dispatcher_wq (bao_io_client_push_request p c req s) = bao_io_dispatcher_wq s"
  "io_dispatcher_work (bao_io_client_push_request p c req s) = io_dispatcher_work s"
  "intc_handler (bao_io_client_push_request p c req s) = intc_handler s"
  "trace (bao_io_client_push_request p c req s) = trace s @ [Ev_push_request p c req]"
  "dm_store (bao_io_client_push_request p c req s) =
     (dm_store s)(p := (dm_store s p)\<lparr>io_clients := (io_clients (dm_store s p))
        [c := (io_clients (dm_store s p) ! c)\<lparr>virtio_requests :=
            virtio_requests (io_clients (dm_store s p) ! c) @ [req]\<rparr>]\<rparr>)"
  by (simp_all add: bao_io_client_push_request_def Let_def)

lemma do_hypercall_simps:
  "bao_hypercall_remio X (hyp s) req = (ret, req', h') \<Longrightarrow>
     do_hypercall X req s = (ret, req', add_trace (Ev_hypercall req) (s\<lparr>hyp := h'\<rparr>))"
  by (simp add: do_hypercall_def)


lemma after_hypercall_simps [simp]:
  "hyp (after_hypercall X p s h') = h'"
  "dm_store (after_hypercall X p s h') = dm_store s"
  "bao_io_dispatcher_wq (after_hypercall X p s h') = bao_io_dispatcher_wq s"
  "io_dispatcher_work (after_hypercall X p s h') = io_dispatcher_work s"
  "intc_handler (after_hypercall X p s h') = intc_handler s"
  "trace (after_hypercall X p s h') = trace s @ [Ev_hypercall (ask_request X (dm_store s p))]"
  by (simp_all add: after_hypercall_def)

lemma dispatch_fault:
  assumes "bao_hypercall_remio X (hyp s) (ask_request X (dm_store s p)) = (ret, req, h')"
    and "hyp_ret ret \<noteq> 0 \<or> remio_hyp_ret ret \<noteq> 0"
  shows "bao_dispatch_io X p s = (- EFAULT, after_hypercall X p s h')"
  using assms by (auto simp: bao_dispatch_io_def do_hypercall_def after_hypercall_def)

lemma dispatch_not_found:
  assumes "bao_hypercall_remio X (hyp s) (ask_request X (dm_store s p)) = (ret, req, h')"
    and "hyp_ret ret = 0" and "remio_hyp_ret ret = 0"
    and "bao_io_client_find (dm_store s p) req = None"
  shows "bao_dispatch_io X p s =
    (- EEXIST, add_trace (Ev_up_read p) (add_trace (Ev_down_read p) (after_hypercall X p s h')))"
  using assms
  by (simp add: bao_dispatch_io_def do_hypercall_def after_hypercall_def down_read_def up_read_def)



lemma dispatch_found:
  assumes "bao_hypercall_remio X (hyp s) (ask_request X (dm_store s p)) = (ret, req, h')"
    and "hyp_ret ret = 0" and "remio_hyp_ret ret = 0"
    and "bao_io_client_find (dm_store s p) req = Some c"
  shows "bao_dispatch_io X p s =
    (ucast (pending_requests ret),
     add_trace (Ev_up_read p) (add_trace (Ev_wake_up p c)
       (bao_io_client_push_request p c req
          (add_trace (Ev_down_read p) (after_hypercall X p s h')))))"
  using assms
  by (simp add: bao_dispatch_io_def do_hypercall_def after_hypercall_def down_read_def up_read_def
      wake_up_interruptible_def Let_def)


lemma dispatch_cases:
  obtains (fault) ret req h' where
      "bao_hypercall_remio X (hyp s) (ask_request X (dm_store s p)) = (ret, req, h')"
      "hyp_ret ret \<noteq> 0 \<or> remio_hyp_ret ret \<noteq> 0"
      "bao_dispatch_io X p s = (- EFAULT, after_hypercall X p s h')"
  | (not_found) ret req h' where
      "bao_hypercall_remio X (hyp s) (ask_request X (dm_store s p)) = (ret, req, h')"
      "hyp_ret ret = 0" "remio_hyp_ret ret = 0"
      "bao_io_client_find (dm_store s p) req = None"
      "bao_dispatch_io X p s =
        (- EEXIST, add_trace (Ev_up_read p) (add_trace (Ev_down_read p) (after_hypercall X p s h')))"
  | (found) ret req h' c where
      "bao_hypercall_remio X (hyp s) (ask_request X (dm_store s p)) = (ret, req, h')"
      "hyp_ret ret = 0" "remio_hyp_ret ret = 0"
      "bao_io_client_find (dm_store s p) req = Some c"
      "bao_dispatch_io X p s =
        (ucast (pending_requests ret),
         add_trace (Ev_up_read p) (add_trace (Ev_wake_up p c)
           (bao_io_client_push_request p c req
              (add_trace (Ev_down_read p) (after_hypercall X p s h')))))"
proof -
  obtain ret req h' where
    h: "bao_hypercall_remio X (hyp s) (ask_request X (dm_store s p)) = (ret, req, h')"
    using prod_cases3 by blast
  show thesis
  proof (cases "hyp_ret ret \<noteq> 0 \<or> remio_hyp_ret ret \<noteq> 0")
    case True
    from fault[OF h True dispatch_fault[OF h True]] show ?thesis .
  next
    case False
    then have z: "hyp_ret ret = 0" "remio_hyp_ret ret = 0" by auto
    show ?thesis
    proof (cases "bao_io_client_find (dm_store s p) req")
      case None
      from not_found[OF h z None dispatch_not_found[OF h z None]] show ?thesis .
    next
      case (Some c)
      from found[OF h z Some dispatch_found[OF h z Some]] show ?thesis .
    qed
  qed
qed


lemma dispatch_frame:
  assumes d: "bao_dispatch_io X p s = (r, s')"
  shows "bao_io_dispatcher_wq s' = bao_io_dispatcher_wq s"
    and "io_dispatcher_work s' = io_dispatcher_work s"
    and "intc_handler s' = intc_handler s"
    and "q \<noteq> p \<Longrightarrow> dm_store s' q = dm_store s q"
    and "info_id (dm_store s' q) = info_id (dm_store s q)"
    and "\<exists>es. trace s' = trace s @ es"
proof -
  have "bao_io_dispatcher_wq s' = bao_io_dispatcher_wq s
    \<and> io_dispatcher_work s' = io_dispatcher_work s
    \<and> intc_handler s' = intc_handler s
    \<and> (q \<noteq> p \<longrightarrow> dm_store s' q = dm_store s q)
    \<and> info_id (dm_store s' q) = info_id (dm_store s q)
    \<and> (\<exists>es. trace s' = trace s @ es)"
  proof (cases rule: dispatch_cases[of X s p])
    case (fault ret req h')
    with d have "s' = after_hypercall X p s h'" by simp
    then show ?thesis by simp
  next
    case (not_found ret req h')
    with d have "s' = add_trace (Ev_up_read p) (add_trace (Ev_down_read p) (after_hypercall X p s h'))"
      by simp
    then show ?thesis by simp
  next
    case (found ret req h' c)
    with d have "s' = add_trace (Ev_up_read p) (add_trace (Ev_wake_up p c)
           (bao_io_client_push_request p c req
              (add_trace (Ev_down_read p) (after_hypercall X p s h'))))"
      by simp
    then show ?thesis by simp
  qed
  then show "bao_io_dispatcher_wq s' = bao_io_dispatcher_wq s"
    and "io_dispatcher_work s' = io_dispatcher_work s"
    and "intc_handler s' = intc_handler s"
    and "q \<noteq> p \<Longrightarrow> dm_store s' q = dm_store s q"
    and "info_id (dm_store s' q) = info_id (dm_store s q)"
    and "\<exists>es. trace s' = trace s @ es"
    by simp_all
qed





lemma dispatch_frame_rel_trans:
  "dispatch_frame_rel p s s1 \<Longrightarrow> dispatch_frame_rel p s1 s2 \<Longrightarrow> dispatch_frame_rel p s s2"
  unfolding dispatch_frame_rel_def
  apply (elim conjE exE)
  apply (intro conjI)
       apply simp
      apply simp
     apply simp
    apply simp
   apply simp
  apply simp
  done

lemma dispatch_frame_rel_step:
  "bao_dispatch_io X p s = (r, s') \<Longrightarrow> dispatch_frame_rel p s s'"
  unfolding dispatch_frame_rel_def using dispatch_frame[of X p s r s'] by blast

lemma io_dispatcher_frame:
  assumes "io_dispatcher X p s = Some s'"
  shows "dispatch_frame_rel p s s'"
proof (rule io_dispatcher.raw_induct[where P = "\<lambda>X p s s'. dispatch_frame_rel p s s'", OF _ assms])
  fix iod :: "'h externals \<Rightarrow> nat \<Rightarrow> 'h sys \<Rightarrow> 'h sys option" and X p s s'
  assume ih: "\<And>X p s s'. iod X p s = Some s' \<Longrightarrow> dispatch_frame_rel p s s'"
    and body: "(case bao_dispatch_io X p s of
        (r, s') \<Rightarrow> if 0 < sint r then iod X p s' else Some s') = Some s'"
  obtain r s1 where d: "bao_dispatch_io X p s = (r, s1)" by (cases "bao_dispatch_io X p s")
  note fr = dispatch_frame_rel_step[OF d]
  show "dispatch_frame_rel p s s'"
  proof (cases "0 < sint r")
    case True
    with body d have "iod X p s1 = Some s'" by simp
    from dispatch_frame_rel_trans[OF fr ih[OF this]] show ?thesis .
  next
    case False
    with body d have "s' = s1" by simp
    with fr show ?thesis by simp
  qed
qed

lemma error_returns_stop: "\<not> 0 < sint (- EEXIST)" "\<not> 0 < sint (- EFAULT)"
  by (simp_all add: EEXIST_def EFAULT_def)

subsection \<open>The drain loop\<close>

lemmas eval_defs = bao_dispatch_io_def do_hypercall_def scripted_remio_def example_X_def
  ask_request_def bao_io_client_find_def bao_io_request_in_range_def boot_def example_client_def
  down_read_def up_read_def wake_up_interruptible_def bao_io_client_push_request_def add_trace_def
  EFAULT_def EEXIST_def Let_def

lemma io_dispatcher_stop:
  "bao_dispatch_io X p s = (r, s') \<Longrightarrow> \<not> 0 < sint r \<Longrightarrow> io_dispatcher X p s = Some s'"
  by (subst io_dispatcher.simps) simp

lemma io_dispatcher_continue:
  "bao_dispatch_io X p s = (r, s') \<Longrightarrow> 0 < sint r \<Longrightarrow> io_dispatcher X p s = io_dispatcher X p s'"
  by (subst io_dispatcher.simps) simp

subsection \<open>Fields after the small steps\<close>

lemma set_work_simps [simp]:
  "hyp (set_work i f s) = hyp s"
  "dm_store (set_work i f s) = dm_store s"
  "bao_io_dispatcher_wq (set_work i f s) = bao_io_dispatcher_wq s"
  "io_dispatcher_work (set_work i f s) = (io_dispatcher_work s)(i := f (io_dispatcher_work s i))"
  "intc_handler (set_work i f s) = intc_handler s"
  "trace (set_work i f s) = trace s"
  by (simp_all add: set_work_def)

lemma setup_handler_simps [simp]:
  "hyp (bao_intc_setup_handler s) = hyp s"
  "dm_store (bao_intc_setup_handler s) = dm_store s"
  "bao_io_dispatcher_wq (bao_intc_setup_handler s) = bao_io_dispatcher_wq s"
  "io_dispatcher_work (bao_intc_setup_handler s) = io_dispatcher_work s"
  "intc_handler (bao_intc_setup_handler s) = True"
  "trace (bao_intc_setup_handler s) = trace s @ [Ev_setup_handler]"
  by (simp_all add: bao_intc_setup_handler_def)

lemma remove_handler_simps [simp]:
  "hyp (bao_intc_remove_handler s) = hyp s"
  "dm_store (bao_intc_remove_handler s) = dm_store s"
  "bao_io_dispatcher_wq (bao_intc_remove_handler s) = bao_io_dispatcher_wq s"
  "io_dispatcher_work (bao_intc_remove_handler s) = io_dispatcher_work s"
  "intc_handler (bao_intc_remove_handler s) = False"
  "trace (bao_intc_remove_handler s) = trace s @ [Ev_remove_handler]"
  by (simp_all add: bao_intc_remove_handler_def)

lemma INIT_WORK_simps [simp]:
  "hyp (INIT_WORK i s) = hyp s"
  "dm_store (INIT_WORK i s) = dm_store s"
  "bao_io_dispatcher_wq (INIT_WORK i s) = bao_io_dispatcher_wq s"
  "io_dispatcher_work (INIT_WORK i s) =
     (io_dispatcher_work s)(i := (io_dispatcher_work s i)\<lparr>work_pending := False\<rparr>)"
  "intc_handler (INIT_WORK i s) = intc_handler s"
  "trace (INIT_WORK i s) = trace s"
  by (simp_all add: INIT_WORK_def)

lemma dm_index_cong:
  "(\<And>q. info_id (dm_store s' q) = info_id (dm_store s q)) \<Longrightarrow> dm_index s' p = dm_index s p"
  by (simp add: dm_index_def)

lemma dm_index_simps [simp]:
  "dm_index (add_trace e s) p = dm_index s p"
  "dm_index (set_work i f s) p = dm_index s p"
  "dm_index (bao_intc_setup_handler s) p = dm_index s p"
  "dm_index (bao_intc_remove_handler s) p = dm_index s p"
  "dm_index (INIT_WORK i s) p = dm_index s p"
  "dm_index (s\<lparr>bao_io_dispatcher_wq := w\<rparr>) p = dm_index s p"
  by (simp_all add: dm_index_def)

subsection \<open>The frame of a drain\<close>

lemma work_frame_rel_refl: "work_frame_rel i s s"
  by (simp add: work_frame_rel_def)

lemma work_frame_rel_trans:
  assumes "work_frame_rel i s s1" and "work_frame_rel i s1 s2"
  shows "work_frame_rel i s s2"
  using assms unfolding work_frame_rel_def by (intro conjI allI impI; simp)

lemma work_frame_rel_of_dispatch:
  assumes "dispatch_frame_rel p s s'" and "work_dm (io_dispatcher_work s i) = Some p"
  shows "work_frame_rel i s s'"
  using assms unfolding work_frame_rel_def dispatch_frame_rel_def by (intro conjI allI impI; simp)

lemma work_dm_ok_frame:
  assumes "work_dm_ok s" and "work_frame_rel i s s'"
  shows "work_dm_ok s'"
proof -
  have ix: "dm_index s' p = dm_index s p" for p
    using assms(2) by (simp add: work_frame_rel_def dm_index_def)
  have wd: "work_dm (io_dispatcher_work s' j) = work_dm (io_dispatcher_work s j)" for j
    using assms(2) by (cases "j = i") (simp_all add: work_frame_rel_def)
  show ?thesis using assms(1) by (simp add: work_dm_ok_def ix wd)
qed

lemma work_frame_rel_other_dm:
  assumes "work_dm_ok s" and "work_frame_rel i s s'" and "dm_index s q \<noteq> i"
  shows "dm_store s' q = dm_store s q"
proof -
  from assms(1,3) have "work_dm (io_dispatcher_work s i) \<noteq> Some q"
    by (auto simp: work_dm_ok_def)
  with assms(2) show ?thesis by (simp add: work_frame_rel_def)
qed

subsection \<open>Worker, drain, pause and destroy\<close>

lemma worker_finish_Inr:
  assumes "worker_finish X i s = Some (Inr s')"
  obtains p s1 where "work_dm (io_dispatcher_work s i) = Some p"
    and "io_dispatcher X p s = Some s1"
    and "s' = set_work i (\<lambda>w. w\<lparr>work_running := False\<rparr>) s1"
  using assms by (auto simp: worker_finish_def split: option.splits)

lemma worker_finish_frame:
  assumes "worker_finish X i s = Some (Inr s')"
  shows "work_frame_rel i s s'"
    and "bao_io_dispatcher_wq s' = bao_io_dispatcher_wq s"
    and "intc_handler s' = intc_handler s"
    and "\<not> work_running (io_dispatcher_work s' i)"
    and "work_pending (io_dispatcher_work s' i) = work_pending (io_dispatcher_work s i)"
    and "\<exists>es. trace s' = trace s @ es"
proof -
  from assms obtain p s1 where p: "work_dm (io_dispatcher_work s i) = Some p"
    and l: "io_dispatcher X p s = Some s1"
    and s': "s' = set_work i (\<lambda>w. w\<lparr>work_running := False\<rparr>) s1"
    by (rule worker_finish_Inr)
  note fr = io_dispatcher_frame[OF l]
  from fr have w: "io_dispatcher_work s1 = io_dispatcher_work s"
    by (simp add: dispatch_frame_rel_def)
  have "work_frame_rel i s s1" by (rule work_frame_rel_of_dispatch[OF fr p])
  moreover have "work_frame_rel i s1 s'"
    unfolding s' by (simp add: work_frame_rel_def)
  ultimately show "work_frame_rel i s s'" by (rule work_frame_rel_trans)
  from fr show "bao_io_dispatcher_wq s' = bao_io_dispatcher_wq s"
    by (simp add: s' dispatch_frame_rel_def)
  from fr show "intc_handler s' = intc_handler s"
    by (simp add: s' dispatch_frame_rel_def)
  show "\<not> work_running (io_dispatcher_work s' i)" by (simp add: s')
  show "work_pending (io_dispatcher_work s' i) = work_pending (io_dispatcher_work s i)"
    by (simp add: s' w)
  from fr show "\<exists>es. trace s' = trace s @ es"
    by (simp add: s' dispatch_frame_rel_def)
qed

lemma worker_begin_frame:
  "work_frame_rel i s (worker_begin i s)"
  "bao_io_dispatcher_wq (worker_begin i s) = bao_io_dispatcher_wq s"
  "intc_handler (worker_begin i s) = intc_handler s"
  "trace (worker_begin i s) = trace s"
  "dm_store (worker_begin i s) = dm_store s"
  by (simp_all add: worker_begin_def work_frame_rel_def)

lemma worker_begin_enabled:
  assumes "bao_io_dispatcher_wq s i = Wq_live" and "work_pending (io_dispatcher_work s i)"
    and "\<not> work_running (io_dispatcher_work s i)"
  shows "worker_begin i s = set_work i (\<lambda>w. w\<lparr>work_pending := False, work_running := True\<rparr>) s"
  using assms by (simp add: worker_begin_def)

lemma worker_iter_Inr:
  assumes "worker_iter X i s = Inr s'"
  shows "(\<not> work_running (io_dispatcher_work s i) \<and> s' = s)
     \<or> (work_running (io_dispatcher_work s i) \<and> work_frame_rel i s s'
         \<and> intc_handler s' = intc_handler s)"
proof (cases "work_running (io_dispatcher_work s i)")
  case False
  with assms show ?thesis by (simp add: worker_iter_def)
next
  case True
  with assms obtain p where p: "work_dm (io_dispatcher_work s i) = Some p"
    by (cases "work_dm (io_dispatcher_work s i)") (simp_all add: worker_iter_def)
  obtain r s1 where d: "bao_dispatch_io X p s = (r, s1)" by (cases "bao_dispatch_io X p s")
  note fr = dispatch_frame_rel_step[OF d]
  have f1: "work_frame_rel i s s1" by (rule work_frame_rel_of_dispatch[OF fr p])
  have "work_frame_rel i s1 (set_work i (\<lambda>w. w\<lparr>work_running := False\<rparr>) s1)"
    by (simp add: work_frame_rel_def)
  with f1 have f2: "work_frame_rel i s (set_work i (\<lambda>w. w\<lparr>work_running := False\<rparr>) s1)"
    by (rule work_frame_rel_trans)
  from assms True p d have "s' = (if 0 < sint r then s1 else set_work i (\<lambda>w. w\<lparr>work_running := False\<rparr>) s1)"
    by (simp add: worker_iter_def)
  with f1 f2 fr True show ?thesis by (simp add: dispatch_frame_rel_def)
qed

text \<open>One turn of the worker, and then the rest of the pass, is the rest of the pass.\<close>

lemma worker_iter_unrolls_the_pass:
  assumes run: "work_running (io_dispatcher_work s i)"
    and wi: "worker_iter X i s = Inr s'"
  shows "worker_finish X i s =
     (if work_running (io_dispatcher_work s' i) then worker_finish X i s' else Some (Inr s'))"
proof -
  from run wi obtain p where p: "work_dm (io_dispatcher_work s i) = Some p"
    by (cases "work_dm (io_dispatcher_work s i)") (simp_all add: worker_iter_def)
  obtain r s1 where d: "bao_dispatch_io X p s = (r, s1)" by (cases "bao_dispatch_io X p s")
  from dispatch_frame_rel_step[OF d] have w: "io_dispatcher_work s1 = io_dispatcher_work s"
    by (simp add: dispatch_frame_rel_def)
  show ?thesis
  proof (cases "0 < sint r")
    case True
    with run wi p d have s': "s' = s1" by (simp add: worker_iter_def)
    from io_dispatcher_continue[OF d True] have "io_dispatcher X p s = io_dispatcher X p s1" .
    with p w run show ?thesis by (simp add: worker_finish_def s')
  next
    case False
    with run wi p d have s': "s' = set_work i (\<lambda>w. w\<lparr>work_running := False\<rparr>) s1"
      by (simp add: worker_iter_def)
    from io_dispatcher_stop[OF d False] p show ?thesis by (simp add: worker_finish_def s')
  qed
qed

lemma queue_work_Inr:
  assumes "queue_work i s = Inr s'"
  shows "bao_io_dispatcher_wq s i = Wq_live \<and> work_frame_rel i s s'
    \<and> bao_io_dispatcher_wq s' = bao_io_dispatcher_wq s \<and> intc_handler s' = intc_handler s
    \<and> work_pending (io_dispatcher_work s' i) \<and> dm_store s' = dm_store s"
proof -
  from assms have live: "bao_io_dispatcher_wq s i = Wq_live"
    by (cases "bao_io_dispatcher_wq s i") (simp_all add: queue_work_def)
  with assms have "s' = (if work_pending (io_dispatcher_work s i) then s
               else add_trace (Ev_queue_work i) (set_work i (\<lambda>w. w\<lparr>work_pending := True\<rparr>) s))"
    by (simp add: queue_work_def)
  with live show ?thesis by (simp add: work_frame_rel_def)
qed

lemma drain_workqueue_idle:
  assumes "bao_io_dispatcher_wq s i = Wq_live" and "\<not> work_pending (io_dispatcher_work s i)"
    and "\<not> work_running (io_dispatcher_work s i)"
  shows "drain_workqueue X i s = Some (Inr (add_trace (Ev_drain_workqueue i) s))"
  using assms by (simp add: drain_workqueue_def Let_def)

lemma drain_workqueue_Inr:
  assumes d: "drain_workqueue X i s = Some (Inr s')"
  shows "bao_io_dispatcher_wq s i = Wq_live
    \<and> work_frame_rel i s s'
    \<and> bao_io_dispatcher_wq s' = bao_io_dispatcher_wq s
    \<and> intc_handler s' = intc_handler s
    \<and> \<not> work_running (io_dispatcher_work s' i)
    \<and> \<not> work_pending (io_dispatcher_work s' i)
    \<and> (\<exists>es. trace s' = trace s @ Ev_drain_workqueue i # es)"
proof -
  from d have live: "bao_io_dispatcher_wq s i = Wq_live"
    by (cases "bao_io_dispatcher_wq s i") (simp_all add: drain_workqueue_def)
  define s0 where "s0 = add_trace (Ev_drain_workqueue i) s"
  define m where "m = (if work_running (io_dispatcher_work s0 i) then worker_finish X i s0
                 else Some (Inr s0))"
  from d live obtain s1 where m: "m = Some (Inr s1)"
    and rest: "(if work_pending (io_dispatcher_work s1 i)
               then worker_finish X i (worker_begin i s1) else Some (Inr s1)) = Some (Inr s')"
    unfolding drain_workqueue_def m_def s0_def
    by (auto simp: Let_def split: option.splits sum.splits)
  have f0: "work_frame_rel i s s0" "bao_io_dispatcher_wq s0 = bao_io_dispatcher_wq s"
    "intc_handler s0 = intc_handler s" "trace s0 = trace s @ [Ev_drain_workqueue i]"
    by (simp_all add: s0_def work_frame_rel_def)
  have f1: "work_frame_rel i s0 s1 \<and> bao_io_dispatcher_wq s1 = bao_io_dispatcher_wq s0
    \<and> intc_handler s1 = intc_handler s0 \<and> \<not> work_running (io_dispatcher_work s1 i)
    \<and> (\<exists>es. trace s1 = trace s0 @ es)"
  proof (cases "work_running (io_dispatcher_work s0 i)")
    case True
    with m have "worker_finish X i s0 = Some (Inr s1)" by (simp add: m_def)
    from worker_finish_frame[OF this] show ?thesis by simp
  next
    case False
    with m have "s1 = s0" by (simp add: m_def)
    with False show ?thesis by (simp add: work_frame_rel_refl)
  qed
  have f2: "work_frame_rel i s1 s' \<and> bao_io_dispatcher_wq s' = bao_io_dispatcher_wq s1
    \<and> intc_handler s' = intc_handler s1 \<and> \<not> work_running (io_dispatcher_work s' i)
    \<and> \<not> work_pending (io_dispatcher_work s' i)
    \<and> (\<exists>es. trace s' = trace s1 @ es)"
  proof (cases "work_pending (io_dispatcher_work s1 i)")
    case True
    with rest have wf: "worker_finish X i (worker_begin i s1) = Some (Inr s')" by simp
    from f1 f0 live have "bao_io_dispatcher_wq s1 i = Wq_live" by simp
    from worker_begin_enabled[OF this True] f1
    have wb: "worker_begin i s1 = set_work i (\<lambda>w. w\<lparr>work_pending := False, work_running := True\<rparr>) s1"
      by simp
    have "work_frame_rel i s1 (worker_begin i s1)" by (rule worker_begin_frame)
    from work_frame_rel_trans[OF this worker_finish_frame(1)[OF wf]]
    have "work_frame_rel i s1 s'" .
    moreover from worker_finish_frame(2)[OF wf] have "bao_io_dispatcher_wq s' = bao_io_dispatcher_wq s1"
      by (simp add: worker_begin_frame)
    moreover from worker_finish_frame(3)[OF wf] have "intc_handler s' = intc_handler s1"
      by (simp add: worker_begin_frame)
    moreover note worker_finish_frame(4)[OF wf]
    moreover from worker_finish_frame(5)[OF wf] have "\<not> work_pending (io_dispatcher_work s' i)"
      by (simp add: wb)
    moreover from worker_finish_frame(6)[OF wf] have "\<exists>es. trace s' = trace s1 @ es"
      by (simp add: worker_begin_frame)
    ultimately show ?thesis by simp
  next
    case False
    with rest have "s' = s1" by simp
    with False f1 show ?thesis by (simp add: work_frame_rel_refl)
  qed
  from f1 f2 f0 obtain e1 e2 where "trace s1 = trace s0 @ e1" "trace s' = trace s1 @ e2" by blast
  with f0 have "trace s' = trace s @ Ev_drain_workqueue i # (e1 @ e2)" by simp
  then have tr: "\<exists>es. trace s' = trace s @ Ev_drain_workqueue i # es" ..
  have fr: "work_frame_rel i s s'"
    using f0 f1 f2 by (blast intro: work_frame_rel_trans)
  from live fr tr f0 f1 f2 show ?thesis by simp
qed

lemma destroy_workqueue_Inr:
  assumes d: "destroy_workqueue X i s = Some (Inr s')"
  shows "bao_io_dispatcher_wq s i = Wq_live
    \<and> work_frame_rel i s s'
    \<and> bao_io_dispatcher_wq s' = (bao_io_dispatcher_wq s)(i := Wq_freed)
    \<and> intc_handler s' = intc_handler s
    \<and> \<not> work_running (io_dispatcher_work s' i)
    \<and> \<not> work_pending (io_dispatcher_work s' i)
    \<and> (\<exists>es. trace s' = trace s @ Ev_drain_workqueue i # es)"
proof -
  from d obtain s1 where dr: "drain_workqueue X i s = Some (Inr s1)"
    and s': "s' = add_trace (Ev_destroy_workqueue i)
                  (s1\<lparr>bao_io_dispatcher_wq := (bao_io_dispatcher_wq s1)(i := Wq_freed)\<rparr>)"
    by (auto simp: destroy_workqueue_def split: option.splits sum.splits)
  note f = drain_workqueue_Inr[OF dr]
  have "work_frame_rel i s1 s'" by (simp add: s' work_frame_rel_def)
  with f have fr: "work_frame_rel i s s'" by (blast intro: work_frame_rel_trans)
  from f obtain es where "trace s1 = trace s @ Ev_drain_workqueue i # es" by blast
  then have "trace s' = trace s @ Ev_drain_workqueue i # (es @ [Ev_destroy_workqueue i])"
    by (simp add: s')
  then have tr: "\<exists>es. trace s' = trace s @ Ev_drain_workqueue i # es" ..
  from f fr tr show ?thesis by (simp add: s')
qed

lemma pause_Inr:
  assumes d: "bao_io_dispatcher_pause X p s = Some (Inr s')"
  shows "dm_index s p < BAO_IO_MAX_DMS X
    \<and> bao_io_dispatcher_wq s (dm_index s p) = Wq_live
    \<and> work_frame_rel (dm_index s p) s s'
    \<and> bao_io_dispatcher_wq s' = bao_io_dispatcher_wq s
    \<and> \<not> intc_handler s'
    \<and> \<not> work_running (io_dispatcher_work s' (dm_index s p))
    \<and> \<not> work_pending (io_dispatcher_work s' (dm_index s p))
    \<and> (\<exists>es. trace s' = trace s @ Ev_remove_handler # Ev_drain_workqueue (dm_index s p) # es)"
proof -
  let ?i = "dm_index s p"
  from d have r: "?i < BAO_IO_MAX_DMS X"
    and dr: "drain_workqueue X ?i (bao_intc_remove_handler s) = Some (Inr s')"
    by (auto simp: bao_io_dispatcher_pause_def Let_def split: if_splits)
  note f = drain_workqueue_Inr[OF dr]
  have "work_frame_rel ?i s (bao_intc_remove_handler s)" by (simp add: work_frame_rel_def)
  with f have fr: "work_frame_rel ?i s s'" by (blast intro: work_frame_rel_trans)
  from f obtain es where "trace s' = trace (bao_intc_remove_handler s) @ Ev_drain_workqueue ?i # es"
    by blast
  then have "trace s' = trace s @ Ev_remove_handler # Ev_drain_workqueue ?i # es" by simp
  then have tr: "\<exists>es. trace s' = trace s @ Ev_remove_handler # Ev_drain_workqueue ?i # es" ..
  from f fr tr r show ?thesis by simp
qed

lemma pause_idle:
  assumes "dm_index s p < BAO_IO_MAX_DMS X"
    and "bao_io_dispatcher_wq s (dm_index s p) = Wq_live"
    and "\<not> work_pending (io_dispatcher_work s (dm_index s p))"
    and "\<not> work_running (io_dispatcher_work s (dm_index s p))"
  shows "bao_io_dispatcher_pause X p s =
    Some (Inr (add_trace (Ev_drain_workqueue (dm_index s p)) (bao_intc_remove_handler s)))"
  using assms by (simp add: bao_io_dispatcher_pause_def Let_def drain_workqueue_idle)

lemma destroy_Inr:
  assumes d: "bao_io_dispatcher_destroy X p s = Some (Inr s')"
  shows "dm_index s p < BAO_IO_MAX_DMS X
    \<and> ((bao_io_dispatcher_wq s (dm_index s p) = Wq_null \<and> s' = s)
       \<or> (bao_io_dispatcher_wq s (dm_index s p) = Wq_live
          \<and> work_frame_rel (dm_index s p) s s'
          \<and> bao_io_dispatcher_wq s' = (bao_io_dispatcher_wq s)(dm_index s p := Wq_freed)
          \<and> \<not> intc_handler s'
          \<and> \<not> work_running (io_dispatcher_work s' (dm_index s p))
          \<and> \<not> work_pending (io_dispatcher_work s' (dm_index s p))
          \<and> (\<exists>es. trace s' = trace s @ Ev_remove_handler # Ev_drain_workqueue (dm_index s p) # es)))"
proof -
  let ?i = "dm_index s p"
  from d have r: "?i < BAO_IO_MAX_DMS X"
    by (auto simp: bao_io_dispatcher_destroy_def Let_def split: if_splits)
  show ?thesis
  proof (cases "bao_io_dispatcher_wq s ?i = Wq_null")
    case True
    with d r have "s' = s" by (simp add: bao_io_dispatcher_destroy_def Let_def)
    with True r show ?thesis by simp
  next
    case False
    with d r obtain s1 s2 where pa: "bao_io_dispatcher_pause X p s = Some (Inr s1)"
      and de: "destroy_workqueue X (dm_index s1 p) s1 = Some (Inr s2)"
      and s': "s' = bao_intc_remove_handler s2"
      by (auto simp: bao_io_dispatcher_destroy_def Let_def split: option.splits sum.splits)
    note f1 = pause_Inr[OF pa]
    from f1 have ix: "dm_index s1 p = ?i" by (simp add: work_frame_rel_def dm_index_def)
    note f2 = destroy_workqueue_Inr[OF de[unfolded ix]]
    have "work_frame_rel ?i s2 s'" by (simp add: s' work_frame_rel_def)
    with f1 f2 have fr: "work_frame_rel ?i s s'" by (blast intro: work_frame_rel_trans)
    from f1 obtain e1 where "trace s1 = trace s @ Ev_remove_handler # Ev_drain_workqueue ?i # e1"
      by blast
    moreover from f2 obtain e2 where "trace s2 = trace s1 @ Ev_drain_workqueue ?i # e2" by blast
    ultimately have "trace s' = trace s @ Ev_remove_handler # Ev_drain_workqueue ?i #
        (e1 @ Ev_drain_workqueue ?i # e2 @ [Ev_remove_handler])"
      by (simp add: s')
    then have tr: "\<exists>es. trace s' = trace s @ Ev_remove_handler # Ev_drain_workqueue ?i # es" ..
    from f1 f2 fr tr r show ?thesis by (simp add: s')
  qed
qed

subsection \<open>Invariants of the system\<close>

text \<open>The zero-initialised work table satisfies the invariant, and every step keeps it.\<close>

lemma work_dm_ok_zeroed:
  "(\<And>i. work_dm (io_dispatcher_work s i) = None) \<Longrightarrow> work_dm_ok s"
  by (simp add: work_dm_ok_def)

lemma work_dm_ok_step:
  assumes ok: "work_dm_ok s" and st: "step X a s = Some (Inr s')"
  shows "work_dm_ok s'"
proof (cases a)
  case (Interrupt p)
  show ?thesis
  proof (cases "intc_handler s")
    case True
    with st Interrupt have "queue_work (dm_index s p) s = Inr s'"
      by (simp add: bao_intc_interrupt_def io_dispatcher_intc_handler_def Let_def split: if_splits)
    from queue_work_Inr[OF this] ok show ?thesis by (blast intro: work_dm_ok_frame)
  next
    case False
    with st Interrupt ok show ?thesis by (simp add: bao_intc_interrupt_def)
  qed
next
  case (Worker_begin i)
  with st ok show ?thesis by (auto intro: work_dm_ok_frame worker_begin_frame(1))
next
  case (Worker_iter i)
  with st have "worker_iter X i s = Inr s'" by simp
  from worker_iter_Inr[OF this] ok show ?thesis by (auto intro: work_dm_ok_frame)
next
  case (Call_init okq p)
  let ?i = "dm_index s p"
  from st Call_init have "s' = s\<lparr>bao_io_dispatcher_wq := (bao_io_dispatcher_wq s)(?i := Wq_null)\<rparr>
    \<or> s' = bao_intc_setup_handler (INIT_WORK ?i (set_work ?i (\<lambda>w. w\<lparr>work_dm := Some p\<rparr>)
            (s\<lparr>bao_io_dispatcher_wq := (bao_io_dispatcher_wq s)(?i := alloc_workqueue okq)\<rparr>)))"
    by (auto simp: bao_io_dispatcher_init_def Let_def split: if_splits)
  then show ?thesis
  proof
    assume "s' = s\<lparr>bao_io_dispatcher_wq := (bao_io_dispatcher_wq s)(?i := Wq_null)\<rparr>"
    with ok show ?thesis by (simp add: work_dm_ok_def)
  next
    assume "s' = bao_intc_setup_handler (INIT_WORK ?i (set_work ?i (\<lambda>w. w\<lparr>work_dm := Some p\<rparr>)
            (s\<lparr>bao_io_dispatcher_wq := (bao_io_dispatcher_wq s)(?i := alloc_workqueue okq)\<rparr>)))"
    with ok show ?thesis by (simp add: work_dm_ok_def)
  qed
next
  case (Call_resume p)
  with st have "queue_work (dm_index s p) (bao_intc_setup_handler s) = Inr s'"
    by (simp add: bao_io_dispatcher_resume_def Let_def split: if_splits)
  from queue_work_Inr[OF this] have "work_frame_rel (dm_index s p) (bao_intc_setup_handler s) s'"
    by simp
  moreover have "work_dm_ok (bao_intc_setup_handler s)" using ok by (simp add: work_dm_ok_def)
  ultimately show ?thesis by (rule work_dm_ok_frame[rotated])
next
  case (Call_pause p)
  with st have "bao_io_dispatcher_pause X p s = Some (Inr s')" by simp
  from pause_Inr[OF this] ok show ?thesis by (blast intro: work_dm_ok_frame)
next
  case (Call_destroy p)
  with st have "bao_io_dispatcher_destroy X p s = Some (Inr s')" by simp
  from destroy_Inr[OF this] ok show ?thesis by (blast intro: work_dm_ok_frame)
qed

lemma work_dm_ok_run:
  "work_dm_ok s \<Longrightarrow> run X acts s = Some (Inr s') \<Longrightarrow> work_dm_ok s'"
proof (induction acts arbitrary: s)
  case Nil
  then show ?case by simp
next
  case (Cons a acts)
  from Cons.prems(2) obtain s1 where st: "step X a s = Some (Inr s1)"
    and rn: "run X acts s1 = Some (Inr s')"
    by (auto split: option.splits sum.splits)
  from Cons.IH[OF work_dm_ok_step[OF Cons.prems(1) st] rn] show ?case .
qed

lemma quiesced_frame:
  assumes q: "quiesced p s" and fr: "work_frame_rel j s s'" and h: "\<not> intc_handler s'"
    and flags: "j = dm_index s p \<Longrightarrow> \<not> work_pending (io_dispatcher_work s' j) \<and> \<not> work_running (io_dispatcher_work s' j)"
  shows "quiesced p s'"
proof -
  from q have ok: "work_dm_ok s" by (simp add: quiesced_def)
  have ix: "dm_index s' p = dm_index s p"
    using fr by (simp add: work_frame_rel_def dm_index_def)
  have "\<not> work_pending (io_dispatcher_work s' (dm_index s p))
      \<and> \<not> work_running (io_dispatcher_work s' (dm_index s p))"
  proof (cases "j = dm_index s p")
    case True
    with flags show ?thesis by simp
  next
    case False
    with fr have "io_dispatcher_work s' (dm_index s p) = io_dispatcher_work s (dm_index s p)"
      by (simp add: work_frame_rel_def)
    with q show ?thesis by (simp add: quiesced_def)
  qed
  with work_dm_ok_frame[OF ok fr] h ix show ?thesis by (simp add: quiesced_def)
qed

lemma quiet_step:
  assumes q: "quiesced p s" and a: "\<not> installs_handler a" and st: "step X a s = Some (Inr s')"
  shows "quiesced p s' \<and> dm_store s' p = dm_store s p"
proof (cases a)
  case (Interrupt x)
  with q st have "s' = s" by (simp add: bao_intc_interrupt_def quiesced_def)
  with q show ?thesis by simp
next
  case (Worker_begin j)
  with st have s': "s' = worker_begin j s" by simp
  have "j = dm_index s p \<Longrightarrow> worker_begin j s = s"
    using q by (simp add: worker_begin_def quiesced_def)
  then have "quiesced p s'"
    unfolding s' using q
    by (intro quiesced_frame[OF q worker_begin_frame(1)]) (auto simp: worker_begin_frame quiesced_def)
  then show ?thesis by (simp add: s' worker_begin_frame)
next
  case (Worker_iter j)
  with st have wi: "worker_iter X j s = Inr s'" by simp
  from worker_iter_Inr[OF wi] show ?thesis
  proof
    assume "\<not> work_running (io_dispatcher_work s j) \<and> s' = s"
    with q show ?thesis by simp
  next
    assume r: "work_running (io_dispatcher_work s j) \<and> work_frame_rel j s s'
         \<and> intc_handler s' = intc_handler s"
    with q have ne: "j \<noteq> dm_index s p" by (auto simp: quiesced_def)
    from r q have "quiesced p s'"
      by (intro quiesced_frame[OF q, of j]) (auto simp: quiesced_def ne)
    moreover from q r ne have "dm_store s' p = dm_store s p"
      by (intro work_frame_rel_other_dm[of s j]) (auto simp: quiesced_def)
    ultimately show ?thesis by simp
  qed
next
  case (Call_init ok x)
  with a show ?thesis by simp
next
  case (Call_resume x)
  with a show ?thesis by simp
next
  case (Call_pause x)
  with st have pa: "bao_io_dispatcher_pause X x s = Some (Inr s')" by simp
  note f = pause_Inr[OF pa]
  let ?j = "dm_index s x"
  from f have "quiesced p s'"
    by (intro quiesced_frame[OF q, of ?j]) auto
  moreover have "dm_store s' p = dm_store s p"
  proof (cases "?j = dm_index s p")
    case True
    with q f have "bao_io_dispatcher_pause X x s =
       Some (Inr (add_trace (Ev_drain_workqueue ?j) (bao_intc_remove_handler s)))"
      by (intro pause_idle) (auto simp: quiesced_def)
    with pa have "s' = add_trace (Ev_drain_workqueue ?j) (bao_intc_remove_handler s)" by simp
    then show ?thesis by simp
  next
    case False
    with q f show ?thesis
      by (intro work_frame_rel_other_dm[of s ?j]) (auto simp: quiesced_def)
  qed
  ultimately show ?thesis by simp
next
  case (Call_destroy x)
  with st have de: "bao_io_dispatcher_destroy X x s = Some (Inr s')" by simp
  let ?j = "dm_index s x"
  from destroy_Inr[OF de] have
    "(bao_io_dispatcher_wq s ?j = Wq_null \<and> s' = s)
       \<or> (bao_io_dispatcher_wq s ?j = Wq_live
          \<and> work_frame_rel ?j s s'
          \<and> bao_io_dispatcher_wq s' = (bao_io_dispatcher_wq s)(?j := Wq_freed)
          \<and> \<not> intc_handler s'
          \<and> \<not> work_running (io_dispatcher_work s' ?j)
          \<and> \<not> work_pending (io_dispatcher_work s' ?j)
          \<and> (\<exists>es. trace s' = trace s @ Ev_remove_handler # Ev_drain_workqueue ?j # es))"
    by simp
  then show ?thesis
  proof
    assume "bao_io_dispatcher_wq s ?j = Wq_null \<and> s' = s"
    with q show ?thesis by simp
  next
    assume f: "bao_io_dispatcher_wq s ?j = Wq_live
          \<and> work_frame_rel ?j s s'
          \<and> bao_io_dispatcher_wq s' = (bao_io_dispatcher_wq s)(?j := Wq_freed)
          \<and> \<not> intc_handler s'
          \<and> \<not> work_running (io_dispatcher_work s' ?j)
          \<and> \<not> work_pending (io_dispatcher_work s' ?j)
          \<and> (\<exists>es. trace s' = trace s @ Ev_remove_handler # Ev_drain_workqueue ?j # es)"
    then have qs: "quiesced p s'"
      by (intro quiesced_frame[OF q, of ?j]) auto
    have "dm_store s' p = dm_store s p"
    proof (cases "?j = dm_index s p")
      case False
      with q f show ?thesis
        by (intro work_frame_rel_other_dm[of s ?j]) (auto simp: quiesced_def)
    next
      case True
      from destroy_Inr[OF de] have r: "?j < BAO_IO_MAX_DMS X" by simp
      from True q f r have pi: "bao_io_dispatcher_pause X x s =
         Some (Inr (add_trace (Ev_drain_workqueue ?j) (bao_intc_remove_handler s)))"
        by (intro pause_idle) (auto simp: quiesced_def)
      let ?s1 = "add_trace (Ev_drain_workqueue ?j) (bao_intc_remove_handler s)"
      from True q f have "drain_workqueue X ?j ?s1 = Some (Inr (add_trace (Ev_drain_workqueue ?j) ?s1))"
        by (intro drain_workqueue_idle) (auto simp: quiesced_def)
      with de pi r f have "s' = bao_intc_remove_handler (add_trace (Ev_destroy_workqueue ?j)
          ((add_trace (Ev_drain_workqueue ?j) ?s1)\<lparr>bao_io_dispatcher_wq :=
             (bao_io_dispatcher_wq (add_trace (Ev_drain_workqueue ?j) ?s1))(?j := Wq_freed)\<rparr>))"
        by (simp add: bao_io_dispatcher_destroy_def Let_def destroy_workqueue_def)
      then show ?thesis by simp
    qed
    with qs show ?thesis by simp
  qed
qed

lemma quiet_run:
  assumes "quiesced p s" and "\<forall>a \<in> set acts. \<not> installs_handler a" and "run X acts s = Some (Inr s')"
  shows "quiesced p s' \<and> dm_store s' p = dm_store s p"
  using assms
proof (induction acts arbitrary: s)
  case Nil
  then show ?case by simp
next
  case (Cons a acts)
  from Cons.prems(3) obtain s1 where st: "step X a s = Some (Inr s1)"
    and rn: "run X acts s1 = Some (Inr s')"
    by (auto split: option.splits sum.splits)
  from Cons.prems(2) have a: "\<not> installs_handler a" and as: "\<forall>a \<in> set acts. \<not> installs_handler a"
    by simp_all
  from quiet_step[OF Cons.prems(1) a st] have q1: "quiesced p s1" and d1: "dm_store s1 p = dm_store s p"
    by simp_all
  from Cons.IH[OF q1 as rn] d1 show ?case by simp
qed

subsection \<open>Evaluating the examples\<close>

lemmas life_defs = bao_io_dispatcher_init_def bao_io_dispatcher_resume_def
  bao_io_dispatcher_pause_def bao_io_dispatcher_destroy_def io_dispatcher_intc_handler_def
  bao_intc_interrupt_def queue_work_def drain_workqueue_def destroy_workqueue_def
  worker_begin_def worker_iter_def worker_finish_def alloc_workqueue_def INIT_WORK_def
  set_work_def bao_intc_setup_handler_def bao_intc_remove_handler_def dm_index_def ENOMEM_def

lemma io_dispatcher_eval_stop:
  "\<not> 0 < sint (fst (bao_dispatch_io X p s)) \<Longrightarrow>
     io_dispatcher X p s = Some (snd (bao_dispatch_io X p s))"
  by (subst io_dispatcher.simps) (simp add: case_prod_beta)

lemma io_dispatcher_eval_continue:
  "0 < sint (fst (bao_dispatch_io X p s)) \<Longrightarrow>
     io_dispatcher X p s = io_dispatcher X p (snd (bao_dispatch_io X p s))"
  by (subst io_dispatcher.simps) (simp add: case_prod_beta)

lemmas run_defs = io_dispatcher_eval_stop io_dispatcher_eval_continue life_defs eval_defs

lemma work_dm_ok_boot: "work_dm_ok (boot script)"
  by (simp add: work_dm_ok_def boot_def)

section \<open>The claims\<close>

subsection \<open>C1: a routable request is pushed once, then the consumer is woken\<close>

text \<open>
  C1. When the hypercall of one call of \<open>bao_dispatch_io\<close> succeeds and hands out a
  request \<open>req\<close> for which the registry finds the client \<open>c\<close>, the call appends \<open>req\<close>
  once to the end of the queue of \<open>c\<close>, leaves every other client and every other DM as
  they were, and its calls are, in this order: the hypercall, taking the registry's lock,
  the push, the wakeup of the client's consumer, releasing the lock. The call returns the
  number of pending requests the hypervisor reported.
\<close>

theorem C1_dispatch_pushes_once_then_wakes:
  assumes "bao_hypercall_remio X (hyp s) (ask_request X (dm_store s p)) = (ret, req, h')"
    and "hyp_ret ret = 0" and "remio_hyp_ret ret = 0"
    and "bao_io_client_find (dm_store s p) req = Some c"
  shows "fst (bao_dispatch_io X p s) = ucast (pending_requests ret)
    \<and> c < length (io_clients (dm_store s p))
    \<and> length (io_clients (dm_store (snd (bao_dispatch_io X p s)) p)) = length (io_clients (dm_store s p))
    \<and> virtio_requests (io_clients (dm_store (snd (bao_dispatch_io X p s)) p) ! c)
        = virtio_requests (io_clients (dm_store s p) ! c) @ [req]
    \<and> (\<forall>c'. c' \<noteq> c \<longrightarrow>
          io_clients (dm_store (snd (bao_dispatch_io X p s)) p) ! c' = io_clients (dm_store s p) ! c')
    \<and> (\<forall>q. q \<noteq> p \<longrightarrow> dm_store (snd (bao_dispatch_io X p s)) q = dm_store s q)
    \<and> trace (snd (bao_dispatch_io X p s)) =
        trace s @ [Ev_hypercall (ask_request X (dm_store s p)), Ev_down_read p,
                   Ev_push_request p c req, Ev_wake_up p c, Ev_up_read p]"
proof -
  from assms(4) have c: "c < length (io_clients (dm_store s p))"
    by (auto simp: bao_io_client_find_def dest: client_find_list_Some)
  show ?thesis
    unfolding dispatch_found[OF assms] using c by simp
qed

text \<open>
  The DM with identifier 3 and an empty client queue; the hypervisor hands out the request
  for address 0x1000, which the client owns.
\<close>

theorem C1_witness:
  "bao_hypercall_remio example_X (hyp (boot [Answer_request 0x1000 1 5 1 2]))
      (ask_request example_X (dm_store (boot [Answer_request 0x1000 1 5 1 2]) 3))
     = (\<lparr>hyp_ret = 0, remio_hyp_ret = 0, pending_requests = 2\<rparr>, req_a, [])
   \<and> bao_io_client_find (dm_store (boot [Answer_request 0x1000 1 5 1 2]) 3) req_a = Some 0
   \<and> virtio_requests (io_clients (dm_store
        (snd (bao_dispatch_io example_X 3 (boot [Answer_request 0x1000 1 5 1 2]))) 3) ! 0) = [req_a]
   \<and> trace (snd (bao_dispatch_io example_X 3 (boot [Answer_request 0x1000 1 5 1 2]))) =
        [Ev_hypercall ask3, Ev_down_read 3, Ev_push_request 3 0 req_a, Ev_wake_up 3 0, Ev_up_read 3]"
proof -
  let ?s = "boot [Answer_request 0x1000 1 5 1 2]"
  have h: "bao_hypercall_remio example_X (hyp ?s) (ask_request example_X (dm_store ?s 3))
     = (\<lparr>hyp_ret = 0, remio_hyp_ret = 0, pending_requests = 2\<rparr>, req_a, [])"
    by (simp add: example_X_def scripted_remio_def boot_def ask_request_def req_a_def)
  have f: "bao_io_client_find (dm_store ?s 3) req_a = Some 0"
    by (simp add: bao_io_client_find_def boot_def example_client_def req_a_def
        bao_io_request_in_range_def)
  have a: "ask_request example_X (dm_store ?s 3) = ask3"
    by (simp add: example_X_def boot_def ask_request_def ask3_def)
  have q: "virtio_requests (io_clients (dm_store ?s 3) ! 0) = []"
    by (simp add: boot_def example_client_def)
  have t: "trace ?s = []" by (simp add: boot_def)
  from C1_dispatch_pushes_once_then_wakes[OF h _ _ f] h f a q t show ?thesis by simp
qed

subsection \<open>C2: a request no client owns\<close>

text \<open>
  C2, as the code has it. When the hypercall succeeds and hands out a request for which
  the registry finds no client, \<open>bao_dispatch_io\<close> returns \<open>-EEXIST\<close> having only taken
  and released the registry's lock: no queue changes and nothing is counted. The value is
  not positive, so the loop of \<open>io_dispatcher\<close> ends there: the drain pass stops at the
  routing miss, whatever number of pending requests the hypervisor reported.
\<close>

theorem C2_routing_miss_ends_the_pass:
  assumes "bao_hypercall_remio X (hyp s) (ask_request X (dm_store s p)) = (ret, req, h')"
    and "hyp_ret ret = 0" and "remio_hyp_ret ret = 0"
    and "bao_io_client_find (dm_store s p) req = None"
  shows "bao_dispatch_io X p s =
      (- EEXIST, s\<lparr>hyp := h', trace := trace s @ [Ev_hypercall (ask_request X (dm_store s p)),
                                               Ev_down_read p, Ev_up_read p]\<rparr>)
    \<and> io_dispatcher X p s =
      Some (s\<lparr>hyp := h', trace := trace s @ [Ev_hypercall (ask_request X (dm_store s p)),
                                             Ev_down_read p, Ev_up_read p]\<rparr>)"
proof -
  have d: "bao_dispatch_io X p s =
      (- EEXIST, s\<lparr>hyp := h', trace := trace s @ [Ev_hypercall (ask_request X (dm_store s p)),
                                               Ev_down_read p, Ev_up_read p]\<rparr>)"
    unfolding dispatch_not_found[OF assms] by (simp add: after_hypercall_def add_trace_def)
  from io_dispatcher_stop[OF d error_returns_stop(1)] d show ?thesis by simp
qed

text \<open>
  The claim as stated fails: the first request is owned by no client and the hypervisor
  reports 5 more pending; the pass ends with the next request still with the hypervisor.
\<close>

theorem C2_counterexample:
  "map_option hyp (io_dispatcher example_X 3 (boot c2_script)) = Some [Answer_request 0x1000 1 5 2 0]"
  apply (subst io_dispatcher.simps)
  apply (simp add: eval_defs c2_script_def)
  done

theorem C2_witness:
  "bao_hypercall_remio example_X (hyp (boot c2_script)) (ask_request example_X (dm_store (boot c2_script) 3))
     = (\<lparr>hyp_ret = 0, remio_hyp_ret = 0, pending_requests = 5\<rparr>,
        \<lparr>dm_id = 3, addr = 0x3000, op = 1, req_value = 1, request_id = 1\<rparr>,
        [Answer_request 0x1000 1 5 2 0])
   \<and> bao_io_client_find (dm_store (boot c2_script) 3)
        \<lparr>dm_id = 3, addr = 0x3000, op = 1, req_value = 1, request_id = 1\<rparr> = None
   \<and> io_dispatcher example_X 3 (boot c2_script) =
      Some ((boot c2_script)\<lparr>hyp := [Answer_request 0x1000 1 5 2 0],
              trace := [Ev_hypercall ask3, Ev_down_read 3, Ev_up_read 3]\<rparr>)"
proof -
  let ?s = "boot c2_script"
  let ?r = "\<lparr>dm_id = 3, addr = 0x3000, op = 1, req_value = 1, request_id = 1\<rparr> :: bao_virtio_request"
  have h: "bao_hypercall_remio example_X (hyp ?s) (ask_request example_X (dm_store ?s 3))
     = (\<lparr>hyp_ret = 0, remio_hyp_ret = 0, pending_requests = 5\<rparr>, ?r, [Answer_request 0x1000 1 5 2 0])"
    by (simp add: example_X_def scripted_remio_def boot_def ask_request_def c2_script_def)
  have f: "bao_io_client_find (dm_store ?s 3) ?r = None"
    by (simp add: bao_io_client_find_def boot_def example_client_def bao_io_request_in_range_def)
  have a: "ask_request example_X (dm_store ?s 3) = ask3"
    by (simp add: example_X_def boot_def ask_request_def ask3_def)
  have t: "trace ?s = []" by (simp add: boot_def)
  from C2_routing_miss_ends_the_pass[OF h _ _ f] h f a t show ?thesis by simp
qed

subsection \<open>C3: the scenario of the spec\<close>

text \<open>
  C3, as the code has it. In the scenario, one drain pass leaves the client's queue as the
  requests for 0x1000 and 0x1800, in this order; the third hypercall hands out the request
  no client owns, \<open>bao_dispatch_io\<close> returns \<open>-EEXIST\<close> and the pass ends after three
  hypercalls: nothing records the drop, and the answer without a request is still with the
  hypervisor when the pass is over.
\<close>

theorem C3_scenario_stops_at_the_unroutable_request:
  "map_option (\<lambda>s. (map virtio_requests (io_clients (dm_store s 3)), hyp s, trace s))
     (io_dispatcher example_X 3 (boot c3_script)) =
   Some ([[req_a, req_b]], [Answer_failure 0 1],
         [Ev_hypercall ask3, Ev_down_read 3, Ev_push_request 3 0 req_a, Ev_wake_up 3 0, Ev_up_read 3,
          Ev_hypercall ask3, Ev_down_read 3, Ev_push_request 3 0 req_b, Ev_wake_up 3 0, Ev_up_read 3,
          Ev_hypercall ask3, Ev_down_read 3, Ev_up_read 3])"
  apply (subst io_dispatcher.simps)
  apply (simp add: eval_defs c3_script_def)
  apply (subst io_dispatcher.simps)
  apply (simp add: eval_defs c3_script_def)
  apply (subst io_dispatcher.simps)
  apply (simp add: eval_defs c3_script_def ask3_def req_a_def req_b_def)
  done

text \<open>
  The claim as stated fails: the pass is over and the answer without a request has not been
  asked for.
\<close>

theorem C3_counterexample:
  "map_option hyp (io_dispatcher example_X 3 (boot c3_script)) = Some [Answer_failure 0 1]"
  apply (subst io_dispatcher.simps)
  apply (simp add: eval_defs c3_script_def)
  apply (subst io_dispatcher.simps)
  apply (simp add: eval_defs c3_script_def)
  apply (subst io_dispatcher.simps)
  apply (simp add: eval_defs c3_script_def)
  done

subsection \<open>C4: a failed hypercall\<close>




subsection \<open>C5: pause\<close>

text \<open>
  C5, as the code has it. \<open>bao_io_dispatcher_pause\<close> first removes the interrupt handler
  and then drains the DM's workqueue: when it returns, the handler slot is empty and the
  DM's work item is neither queued nor running, so the pass in flight and the queued pass
  have ended. The handler slot is the only one there is, shared by all DMs. After the
  pause, whatever interrupts, worker steps, pauses and destroys follow, no client queue
  of the DM changes as long as no \<open>init\<close> and no \<open>resume\<close>, of this or of any other DM,
  installs the handler again.
\<close>

theorem C5_pause_quiesces_until_handler_installed:
  assumes ok: "work_dm_ok s"
    and pa: "bao_io_dispatcher_pause X p s = Some (Inr s1)"
    and quiet: "\<forall>a \<in> set acts. \<not> installs_handler a"
    and rn: "run X acts s1 = Some (Inr s2)"
  shows "(\<exists>es. trace s1 = trace s @ Ev_remove_handler # Ev_drain_workqueue (dm_index s p) # es)
    \<and> \<not> intc_handler s1
    \<and> \<not> work_pending (io_dispatcher_work s1 (dm_index s p))
    \<and> \<not> work_running (io_dispatcher_work s1 (dm_index s p))
    \<and> dm_store s2 p = dm_store s1 p"
proof -
  note f = pause_Inr[OF pa]
  from f have ix: "dm_index s1 p = dm_index s p" by (simp add: work_frame_rel_def dm_index_def)
  from f ok have "work_dm_ok s1" by (blast intro: work_dm_ok_frame)
  with f ix have "quiesced p s1" by (simp add: quiesced_def)
  from quiet_run[OF this quiet rn] f show ?thesis by simp
qed

text \<open>
  The claim as stated fails: DM 0 is initialised and paused, and no resume is ever called;
  the \<open>init\<close> of DM 1 installs the shared handler again, an interrupt for DM 0 queues
  its work item, and the worker pushes a request to the client of DM 0.
\<close>

theorem C5_counterexample:
  "map_option (map_sum id (client_queues 0))
     (run example_X [Call_init True 0, Call_pause 0] (boot [Answer_request 0x1000 1 5 1 0]))
     = Some (Inr [[]])
   \<and> map_option (map_sum id (client_queues 0))
     (run example_X [Call_init True 0, Call_pause 0, Call_init True 1, Interrupt 0, Worker_begin 0,
                     Worker_iter 0] (boot [Answer_request 0x1000 1 5 1 0]))
     = Some (Inr [[req_0]])"
  by (simp add: life_defs eval_defs client_queues_def req_0_def)

text \<open>
  DM 0 is initialised and resumed, so a pass is queued; the pause runs it, and the client
  receives the request for 0x1000. Afterwards an interrupt and worker steps change nothing.
\<close>

theorem C5_witness:
  "work_dm_ok (run_state example_X [Call_init True 0, Call_resume 0] (boot [Answer_request 0x1000 1 5 1 0]))
   \<and> bao_io_dispatcher_pause example_X 0
          (run_state example_X [Call_init True 0, Call_resume 0] (boot [Answer_request 0x1000 1 5 1 0]))
       = Some (Inr (run_state example_X [Call_init True 0, Call_resume 0, Call_pause 0]
                      (boot [Answer_request 0x1000 1 5 1 0])))
   \<and> run example_X c5_acts
         (run_state example_X [Call_init True 0, Call_resume 0, Call_pause 0]
            (boot [Answer_request 0x1000 1 5 1 0]))
       = Some (Inr (run_state example_X ([Call_init True 0, Call_resume 0, Call_pause 0] @ c5_acts)
                      (boot [Answer_request 0x1000 1 5 1 0])))
   \<and> client_queues 0 (run_state example_X [Call_init True 0, Call_resume 0, Call_pause 0]
                         (boot [Answer_request 0x1000 1 5 1 0])) = [[req_0]]
   \<and> dm_store (run_state example_X ([Call_init True 0, Call_resume 0, Call_pause 0] @ c5_acts)
                      (boot [Answer_request 0x1000 1 5 1 0])) 0
     = dm_store (run_state example_X [Call_init True 0, Call_resume 0, Call_pause 0]
                         (boot [Answer_request 0x1000 1 5 1 0])) 0"
proof -
  let ?b = "boot [Answer_request 0x1000 1 5 1 0]"
  let ?s = "run_state example_X [Call_init True 0, Call_resume 0] ?b"
  let ?s1 = "run_state example_X [Call_init True 0, Call_resume 0, Call_pause 0] ?b"
  let ?s2 = "run_state example_X ([Call_init True 0, Call_resume 0, Call_pause 0] @ c5_acts) ?b"
  have r0: "run example_X [Call_init True 0, Call_resume 0] ?b = Some (Inr ?s)"
    by (simp add: run_state_def run_defs)
  have ok: "work_dm_ok ?s"
    by (rule work_dm_ok_run[OF work_dm_ok_boot r0])
  have pa: "bao_io_dispatcher_pause example_X 0 ?s = Some (Inr ?s1)"
    by (simp add: run_state_def run_defs)
  have rn: "run example_X c5_acts ?s1 = Some (Inr ?s2)"
    by (simp add: run_state_def run_defs c5_acts_def)
  have qu: "client_queues 0 ?s1 = [[req_0]]"
    by (simp add: run_state_def run_defs client_queues_def req_0_def)
  have quiet: "\<forall>a \<in> set c5_acts. \<not> installs_handler a" by (simp add: c5_acts_def)
  from C5_pause_quiesces_until_handler_installed[OF ok pa quiet rn] ok pa rn qu
  show ?thesis by simp
qed

subsection \<open>C6: what pause and destroy leave alone\<close>

text \<open>
  C6, as the code has it. A pause, and a destroy that finds a workqueue, remove the one
  interrupt handler shared by all DMs: when they return the handler slot is empty and an
  interrupt for any DM queues nothing. They drain only the workqueue at the DM's
  identifier (its work item is then neither queued nor running, and a destroy leaves the
  freed pointer in the table): the work items at every other index, the other workqueue
  entries, and every DM with another identifier (its client queues included) are left as
  they were. A destroy that finds no workqueue changes nothing. A pause of a DM with a
  workqueue and no pass queued or running returns at once, the handler removed.
\<close>

theorem C6_pause_and_destroy_remove_shared_handler:
  assumes ok: "work_dm_ok s"
  shows "(bao_io_dispatcher_pause X p s = Some (Inr s') \<longrightarrow>
            \<not> intc_handler s'
          \<and> (\<forall>q. bao_intc_interrupt X q s' = Inr s')
          \<and> (\<exists>es. trace s' = trace s @ Ev_remove_handler # Ev_drain_workqueue (dm_index s p) # es)
          \<and> \<not> work_pending (io_dispatcher_work s' (dm_index s p))
          \<and> \<not> work_running (io_dispatcher_work s' (dm_index s p))
          \<and> bao_io_dispatcher_wq s' = bao_io_dispatcher_wq s
          \<and> (\<forall>j. j \<noteq> dm_index s p \<longrightarrow> io_dispatcher_work s' j = io_dispatcher_work s j)
          \<and> (\<forall>q. dm_index s q \<noteq> dm_index s p \<longrightarrow> dm_store s' q = dm_store s q))
    \<and> (bao_io_dispatcher_destroy X p s = Some (Inr s') \<longrightarrow>
            (bao_io_dispatcher_wq s (dm_index s p) = Wq_null \<and> s' = s)
          \<or> (bao_io_dispatcher_wq s (dm_index s p) = Wq_live
              \<and> \<not> intc_handler s'
              \<and> (\<forall>q. bao_intc_interrupt X q s' = Inr s')
              \<and> (\<exists>es. trace s' = trace s @ Ev_remove_handler # Ev_drain_workqueue (dm_index s p) # es)
              \<and> \<not> work_pending (io_dispatcher_work s' (dm_index s p))
              \<and> \<not> work_running (io_dispatcher_work s' (dm_index s p))
              \<and> bao_io_dispatcher_wq s' = (bao_io_dispatcher_wq s)(dm_index s p := Wq_freed)
              \<and> (\<forall>j. j \<noteq> dm_index s p \<longrightarrow> io_dispatcher_work s' j = io_dispatcher_work s j)
              \<and> (\<forall>q. dm_index s q \<noteq> dm_index s p \<longrightarrow> dm_store s' q = dm_store s q)))
    \<and> (dm_index s p < BAO_IO_MAX_DMS X \<and> bao_io_dispatcher_wq s (dm_index s p) = Wq_live
         \<and> \<not> work_pending (io_dispatcher_work s (dm_index s p))
         \<and> \<not> work_running (io_dispatcher_work s (dm_index s p)) \<longrightarrow>
          bao_io_dispatcher_pause X p s =
            Some (Inr (add_trace (Ev_drain_workqueue (dm_index s p)) (bao_intc_remove_handler s))))"
proof -
  let ?i = "dm_index s p"
  have frame: "(\<forall>j. j \<noteq> ?i \<longrightarrow> io_dispatcher_work s' j = io_dispatcher_work s j)
        \<and> (\<forall>q. dm_index s q \<noteq> ?i \<longrightarrow> dm_store s' q = dm_store s q)"
    if f: "work_frame_rel ?i s s'"
  proof -
    from f have "\<forall>j. j \<noteq> ?i \<longrightarrow> io_dispatcher_work s' j = io_dispatcher_work s j"
      by (simp add: work_frame_rel_def)
    moreover from f ok have "\<forall>q. dm_index s q \<noteq> ?i \<longrightarrow> dm_store s' q = dm_store s q"
      by (blast intro: work_frame_rel_other_dm)
    ultimately show ?thesis by simp
  qed
  have quiet: "\<forall>q. bao_intc_interrupt X q s' = Inr s'" if "\<not> intc_handler s'"
    using that by (simp add: bao_intc_interrupt_def)
  have pa: "\<not> intc_handler s'
          \<and> (\<forall>q. bao_intc_interrupt X q s' = Inr s')
          \<and> (\<exists>es. trace s' = trace s @ Ev_remove_handler # Ev_drain_workqueue ?i # es)
          \<and> \<not> work_pending (io_dispatcher_work s' ?i)
          \<and> \<not> work_running (io_dispatcher_work s' ?i)
          \<and> bao_io_dispatcher_wq s' = bao_io_dispatcher_wq s
          \<and> (\<forall>j. j \<noteq> ?i \<longrightarrow> io_dispatcher_work s' j = io_dispatcher_work s j)
          \<and> (\<forall>q. dm_index s q \<noteq> ?i \<longrightarrow> dm_store s' q = dm_store s q)"
    if p: "bao_io_dispatcher_pause X p s = Some (Inr s')"
  proof -
    note f = pause_Inr[OF p]
    from f have fr: "work_frame_rel ?i s s'" and h: "\<not> intc_handler s'" by simp_all
    from f frame[OF fr] quiet[OF h] show ?thesis by simp
  qed
  have de: "(bao_io_dispatcher_wq s ?i = Wq_null \<and> s' = s)
          \<or> (bao_io_dispatcher_wq s ?i = Wq_live
              \<and> \<not> intc_handler s'
              \<and> (\<forall>q. bao_intc_interrupt X q s' = Inr s')
              \<and> (\<exists>es. trace s' = trace s @ Ev_remove_handler # Ev_drain_workqueue ?i # es)
              \<and> \<not> work_pending (io_dispatcher_work s' ?i)
              \<and> \<not> work_running (io_dispatcher_work s' ?i)
              \<and> bao_io_dispatcher_wq s' = (bao_io_dispatcher_wq s)(?i := Wq_freed)
              \<and> (\<forall>j. j \<noteq> ?i \<longrightarrow> io_dispatcher_work s' j = io_dispatcher_work s j)
              \<and> (\<forall>q. dm_index s q \<noteq> ?i \<longrightarrow> dm_store s' q = dm_store s q))"
    if d: "bao_io_dispatcher_destroy X p s = Some (Inr s')"
  proof (cases "bao_io_dispatcher_wq s ?i = Wq_null \<and> s' = s")
    case True
    then show ?thesis by simp
  next
    case False
    with destroy_Inr[OF d] have f: "bao_io_dispatcher_wq s ?i = Wq_live
          \<and> work_frame_rel ?i s s'
          \<and> bao_io_dispatcher_wq s' = (bao_io_dispatcher_wq s)(?i := Wq_freed)
          \<and> \<not> intc_handler s'
          \<and> \<not> work_running (io_dispatcher_work s' ?i)
          \<and> \<not> work_pending (io_dispatcher_work s' ?i)
          \<and> (\<exists>es. trace s' = trace s @ Ev_remove_handler # Ev_drain_workqueue ?i # es)"
      by blast
    then have fr: "work_frame_rel ?i s s'" and h: "\<not> intc_handler s'" by simp_all
    from f frame[OF fr] quiet[OF h] show ?thesis by simp
  qed
  have idle: "bao_io_dispatcher_pause X p s =
            Some (Inr (add_trace (Ev_drain_workqueue ?i) (bao_intc_remove_handler s)))"
    if "?i < BAO_IO_MAX_DMS X \<and> bao_io_dispatcher_wq s ?i = Wq_live
         \<and> \<not> work_pending (io_dispatcher_work s ?i)
         \<and> \<not> work_running (io_dispatcher_work s ?i)"
    using that by (simp add: pause_idle)
  have c1: "bao_io_dispatcher_pause X p s = Some (Inr s') \<longrightarrow>
            \<not> intc_handler s'
          \<and> (\<forall>q. bao_intc_interrupt X q s' = Inr s')
          \<and> (\<exists>es. trace s' = trace s @ Ev_remove_handler # Ev_drain_workqueue ?i # es)
          \<and> \<not> work_pending (io_dispatcher_work s' ?i)
          \<and> \<not> work_running (io_dispatcher_work s' ?i)
          \<and> bao_io_dispatcher_wq s' = bao_io_dispatcher_wq s
          \<and> (\<forall>j. j \<noteq> ?i \<longrightarrow> io_dispatcher_work s' j = io_dispatcher_work s j)
          \<and> (\<forall>q. dm_index s q \<noteq> ?i \<longrightarrow> dm_store s' q = dm_store s q)"
    by (rule impI) (erule pa)
  have c2: "bao_io_dispatcher_destroy X p s = Some (Inr s') \<longrightarrow>
            (bao_io_dispatcher_wq s ?i = Wq_null \<and> s' = s)
          \<or> (bao_io_dispatcher_wq s ?i = Wq_live
              \<and> \<not> intc_handler s'
              \<and> (\<forall>q. bao_intc_interrupt X q s' = Inr s')
              \<and> (\<exists>es. trace s' = trace s @ Ev_remove_handler # Ev_drain_workqueue ?i # es)
              \<and> \<not> work_pending (io_dispatcher_work s' ?i)
              \<and> \<not> work_running (io_dispatcher_work s' ?i)
              \<and> bao_io_dispatcher_wq s' = (bao_io_dispatcher_wq s)(?i := Wq_freed)
              \<and> (\<forall>j. j \<noteq> ?i \<longrightarrow> io_dispatcher_work s' j = io_dispatcher_work s j)
              \<and> (\<forall>q. dm_index s q \<noteq> ?i \<longrightarrow> dm_store s' q = dm_store s q))"
    by (rule impI) (erule de)
  have c3: "?i < BAO_IO_MAX_DMS X \<and> bao_io_dispatcher_wq s ?i = Wq_live
         \<and> \<not> work_pending (io_dispatcher_work s ?i)
         \<and> \<not> work_running (io_dispatcher_work s ?i) \<longrightarrow>
          bao_io_dispatcher_pause X p s =
            Some (Inr (add_trace (Ev_drain_workqueue ?i) (bao_intc_remove_handler s)))"
    by (rule impI) (erule idle)
  from c1 c2 c3 show ?thesis by (intro conjI)
qed

text \<open>
  The claim as stated fails: with DM 0 and DM 1 initialised, an interrupt for DM 1 queues
  its work item; after a pause of DM 0 the same interrupt queues nothing.
\<close>

theorem C6_counterexample:
  "map_option (map_sum id (pending_at 1))
     (run example_X [Call_init True 0, Call_init True 1, Interrupt 1] (boot []))
     = Some (Inr True)
   \<and> map_option (map_sum id (pending_at 1))
     (run example_X [Call_init True 0, Call_init True 1, Call_pause 0, Interrupt 1] (boot []))
     = Some (Inr False)"
  by (simp add: run_defs pending_at_def)

text \<open>
  With the handler installed and a pass queued for DM 1, a pause of DM 0 removes the
  handler and leaves the work item of DM 1 queued; an interrupt for DM 1 then changes
  nothing. A destroy of DM 0 in the same state frees its workqueue and removes the handler.
\<close>

theorem C6_witness:
  "work_dm_ok (run_state example_X [Call_init True 0, Call_init True 1, Call_resume 1] (boot []))
   \<and> intc_handler (run_state example_X [Call_init True 0, Call_init True 1, Call_resume 1] (boot []))
   \<and> bao_io_dispatcher_pause example_X 0
        (run_state example_X [Call_init True 0, Call_init True 1, Call_resume 1] (boot []))
      = Some (Inr (run_state example_X [Call_init True 0, Call_init True 1, Call_resume 1, Call_pause 0]
                    (boot [])))
   \<and> pending_at 1 (run_state example_X [Call_init True 0, Call_init True 1, Call_resume 1] (boot []))
   \<and> io_dispatcher_work
        (run_state example_X [Call_init True 0, Call_init True 1, Call_resume 1, Call_pause 0] (boot [])) 1
      = io_dispatcher_work
        (run_state example_X [Call_init True 0, Call_init True 1, Call_resume 1] (boot [])) 1
   \<and> \<not> intc_handler
        (run_state example_X [Call_init True 0, Call_init True 1, Call_resume 1, Call_pause 0] (boot []))
   \<and> bao_intc_interrupt example_X 1
        (run_state example_X [Call_init True 0, Call_init True 1, Call_resume 1, Call_pause 0] (boot []))
      = Inr (run_state example_X [Call_init True 0, Call_init True 1, Call_resume 1, Call_pause 0] (boot []))
   \<and> bao_io_dispatcher_destroy example_X 0
        (run_state example_X [Call_init True 0, Call_init True 1, Call_resume 1] (boot []))
      = Some (Inr (run_state example_X [Call_init True 0, Call_init True 1, Call_resume 1, Call_destroy 0]
                    (boot [])))
   \<and> bao_io_dispatcher_wq
        (run_state example_X [Call_init True 0, Call_init True 1, Call_resume 1, Call_destroy 0] (boot [])) 0
      = Wq_freed
   \<and> \<not> intc_handler
        (run_state example_X [Call_init True 0, Call_init True 1, Call_resume 1, Call_destroy 0] (boot []))"
proof -
  let ?s = "run_state example_X [Call_init True 0, Call_init True 1, Call_resume 1] (boot [])"
  let ?s' = "run_state example_X [Call_init True 0, Call_init True 1, Call_resume 1, Call_pause 0] (boot [])"
  let ?d = "run_state example_X [Call_init True 0, Call_init True 1, Call_resume 1, Call_destroy 0] (boot [])"
  have r0: "run example_X [Call_init True 0, Call_init True 1, Call_resume 1] (boot []) = Some (Inr ?s)"
    by (simp add: run_state_def run_defs)
  have ok: "work_dm_ok ?s"
    by (rule work_dm_ok_run[OF work_dm_ok_boot r0])
  have pa: "bao_io_dispatcher_pause example_X 0 ?s = Some (Inr ?s')"
    by (simp add: run_state_def run_defs)
  have de: "bao_io_dispatcher_destroy example_X 0 ?s = Some (Inr ?d)"
    by (simp add: run_state_def run_defs)
  have ix: "dm_index ?s 0 = 0" by (simp add: run_state_def run_defs)
  have live: "bao_io_dispatcher_wq ?s 0 = Wq_live" by (simp add: run_state_def run_defs)
  have pe: "pending_at 1 ?s" "intc_handler ?s" by (simp_all add: run_state_def run_defs pending_at_def)
  from C6_pause_and_destroy_remove_shared_handler[OF ok, of example_X 0 ?s'] pa ix
  have p1: "io_dispatcher_work ?s' 1 = io_dispatcher_work ?s 1" "\<not> intc_handler ?s'"
    "bao_intc_interrupt example_X 1 ?s' = Inr ?s'"
    by simp_all
  from C6_pause_and_destroy_remove_shared_handler[OF ok, of example_X 0 ?d] de ix live
  have d1: "bao_io_dispatcher_wq ?d 0 = Wq_freed" "\<not> intc_handler ?d"
    by simp_all
  from ok pa de pe p1 d1 show ?thesis by simp
qed

subsection \<open>C7: resume\<close>

text \<open>
  C7. Called for a DM whose identifier is in range and whose workqueue exists,
  \<open>bao_io_dispatcher_resume\<close> installs the interrupt handler first and leaves the DM's
  work item queued, whatever the state before: no interrupt is needed for the worker to
  run a drain pass (after the worker's next step the work item is running).
\<close>

theorem C7_resume_installs_handler_and_queues_pass:
  assumes r: "dm_index s p < BAO_IO_MAX_DMS X"
    and live: "bao_io_dispatcher_wq s (dm_index s p) = Wq_live"
  shows "\<exists>s'. bao_io_dispatcher_resume X p s = Inr s'
    \<and> intc_handler s'
    \<and> work_pending (io_dispatcher_work s' (dm_index s p))
    \<and> work_running (io_dispatcher_work (worker_begin (dm_index s p) s') (dm_index s p))
    \<and> (\<exists>es. trace s' = trace s @ Ev_setup_handler # es)
    \<and> dm_store s' = dm_store s"
proof (cases "work_pending (io_dispatcher_work s (dm_index s p))")
  case True
  with r live have "bao_io_dispatcher_resume X p s = Inr (bao_intc_setup_handler s)"
    by (simp add: bao_io_dispatcher_resume_def Let_def queue_work_def)
  with True live show ?thesis by (simp add: worker_begin_def)
next
  case False
  with r live have "bao_io_dispatcher_resume X p s =
      Inr (add_trace (Ev_queue_work (dm_index s p))
            (set_work (dm_index s p) (\<lambda>w. w\<lparr>work_pending := True\<rparr>) (bao_intc_setup_handler s)))"
    by (simp add: bao_io_dispatcher_resume_def Let_def queue_work_def)
  with live show ?thesis by (simp add: worker_begin_def)
qed

text \<open>DM 0 after \<open>init\<close> and \<open>pause\<close>: no handler, nothing queued; the resume installs and queues.\<close>

theorem C7_witness:
  "dm_index (run_state example_X [Call_init True 0, Call_pause 0] (boot [])) 0 < BAO_IO_MAX_DMS example_X
   \<and> bao_io_dispatcher_wq (run_state example_X [Call_init True 0, Call_pause 0] (boot [])) 0 = Wq_live
   \<and> \<not> intc_handler (run_state example_X [Call_init True 0, Call_pause 0] (boot []))
   \<and> \<not> pending_at 0 (run_state example_X [Call_init True 0, Call_pause 0] (boot []))
   \<and> (\<exists>s'. bao_io_dispatcher_resume example_X 0
              (run_state example_X [Call_init True 0, Call_pause 0] (boot [])) = Inr s'
         \<and> intc_handler s' \<and> pending_at 0 s')"
proof -
  let ?s = "run_state example_X [Call_init True 0, Call_pause 0] (boot [])"
  have ix: "dm_index ?s 0 = 0" by (simp add: run_state_def run_defs)
  have r: "dm_index ?s 0 < BAO_IO_MAX_DMS example_X" by (simp add: run_state_def run_defs)
  have live: "bao_io_dispatcher_wq ?s (dm_index ?s 0) = Wq_live" by (simp add: run_state_def run_defs)
  have h: "\<not> intc_handler ?s" "\<not> pending_at 0 ?s" by (simp_all add: run_state_def run_defs pending_at_def)
  from C7_resume_installs_handler_and_queues_pass[OF r live] ix r live h
  show ?thesis by (auto simp: pending_at_def)
qed

subsection \<open>C8: the DM identifier is never checked\<close>

text \<open>
  C8, as the code has it. No entry point compares the identifier with \<open>BAO_IO_MAX_DMS\<close>.
  With an identifier in range, \<open>bao_io_dispatcher_init\<close> returns 0, or \<open>-ENOMEM\<close> when the
  workqueue cannot be allocated, and nothing else. With an identifier out of range,
  \<open>init\<close>, \<open>resume\<close>, \<open>pause\<close>, \<open>destroy\<close> and the interrupt handler all index the table
  outside its bounds: none of them returns an error.
\<close>

theorem C8_no_range_check_on_the_domain_id:
  "(dm_index s p < BAO_IO_MAX_DMS X \<longrightarrow>
      map_sum id fst (bao_io_dispatcher_init X ok p s) = Inr (if ok then 0 else - ENOMEM))
   \<and> (\<not> dm_index s p < BAO_IO_MAX_DMS X \<longrightarrow>
        bao_io_dispatcher_init X ok p s = Inl Out_of_bounds_access
      \<and> bao_io_dispatcher_resume X p s = Inl Out_of_bounds_access
      \<and> bao_io_dispatcher_pause X p s = Some (Inl Out_of_bounds_access)
      \<and> bao_io_dispatcher_destroy X p s = Some (Inl Out_of_bounds_access)
      \<and> io_dispatcher_intc_handler X p s = Inl Out_of_bounds_access)"
  by (simp add: bao_io_dispatcher_init_def bao_io_dispatcher_resume_def bao_io_dispatcher_pause_def
      bao_io_dispatcher_destroy_def io_dispatcher_intc_handler_def alloc_workqueue_def Let_def)

text \<open>
  The claim as stated fails: with a table of 16 entries and the identifier 16, every entry
  point reaches the access outside the table.
\<close>

theorem C8_counterexample:
  "bao_io_dispatcher_init example_X True 16 (boot []) = Inl Out_of_bounds_access
   \<and> bao_io_dispatcher_resume example_X 16 (boot []) = Inl Out_of_bounds_access
   \<and> bao_io_dispatcher_pause example_X 16 (boot []) = Some (Inl Out_of_bounds_access)
   \<and> bao_io_dispatcher_destroy example_X 16 (boot []) = Some (Inl Out_of_bounds_access)
   \<and> io_dispatcher_intc_handler example_X 16 (boot []) = Inl Out_of_bounds_access"
  by (simp add: run_defs)

theorem C8_witness:
  "dm_index (boot []) 2 < BAO_IO_MAX_DMS example_X
   \<and> map_sum id fst (bao_io_dispatcher_init example_X True 2 (boot [])) = Inr 0
   \<and> map_sum id fst (bao_io_dispatcher_init example_X False 2 (boot [])) = Inr (- ENOMEM)
   \<and> \<not> dm_index (boot []) 40 < BAO_IO_MAX_DMS example_X
   \<and> bao_io_dispatcher_init example_X True 40 (boot []) = Inl Out_of_bounds_access
   \<and> bao_io_dispatcher_pause example_X 40 (boot []) = Some (Inl Out_of_bounds_access)"
proof -
  have a: "dm_index (boot []) 2 < BAO_IO_MAX_DMS example_X"
    by (simp add: dm_index_def boot_def example_X_def)
  have b: "\<not> dm_index (boot []) 40 < BAO_IO_MAX_DMS example_X"
    by (simp add: dm_index_def boot_def example_X_def)
  from C8_no_range_check_on_the_domain_id[of "boot []" 2 example_X True]
    C8_no_range_check_on_the_domain_id[of "boot []" 2 example_X False]
    C8_no_range_check_on_the_domain_id[of "boot []" 40 example_X True] a b
  show ?thesis by simp
qed

subsection \<open>C9: destroy is guarded, pause and resume are not\<close>



subsection \<open>C10: init already installs the handler\<close>

text \<open>
  C10. When \<open>bao_io_dispatcher_init\<close> returns 0, the interrupt handler is installed, the
  DM's workqueue exists and its work item holds the DM and is not queued. An interrupt for
  the DM right then, with no resume in between, queues the work item, and the worker can
  run a drain pass.
\<close>

theorem C10_handler_installed_by_init:
  assumes i: "bao_io_dispatcher_init X ok p s = Inr (0, s')"
  shows "intc_handler s'
    \<and> bao_io_dispatcher_wq s' (dm_index s' p) = Wq_live
    \<and> work_dm (io_dispatcher_work s' (dm_index s' p)) = Some p
    \<and> \<not> work_pending (io_dispatcher_work s' (dm_index s' p))
    \<and> (\<exists>s''. bao_intc_interrupt X p s' = Inr s''
          \<and> work_pending (io_dispatcher_work s'' (dm_index s' p))
          \<and> trace s'' = trace s' @ [Ev_queue_work (dm_index s' p)]
          \<and> work_running (io_dispatcher_work (worker_begin (dm_index s' p) s'') (dm_index s' p)))"
proof -
  let ?i = "dm_index s p"
  from i have r: "?i < BAO_IO_MAX_DMS X"
    by (auto simp: bao_io_dispatcher_init_def Let_def split: if_splits)
  from i r have okT: "ok"
    by (cases ok) (simp_all add: bao_io_dispatcher_init_def Let_def alloc_workqueue_def ENOMEM_def)
  from i r okT have s': "s' = bao_intc_setup_handler (INIT_WORK ?i (set_work ?i (\<lambda>w. w\<lparr>work_dm := Some p\<rparr>)
            (s\<lparr>bao_io_dispatcher_wq := (bao_io_dispatcher_wq s)(?i := Wq_live)\<rparr>)))"
    by (simp add: bao_io_dispatcher_init_def Let_def alloc_workqueue_def)
  have ix: "dm_index s' p = ?i" by (simp add: s')
  show ?thesis
    unfolding ix using r
    by (simp add: s' bao_intc_interrupt_def io_dispatcher_intc_handler_def queue_work_def
        worker_begin_def Let_def)
qed

theorem C10_witness:
  "bao_io_dispatcher_init example_X True 0 (boot []) =
      Inr (0, run_state example_X [Call_init True 0] (boot []))
   \<and> intc_handler (run_state example_X [Call_init True 0] (boot []))
   \<and> (\<exists>s''. bao_intc_interrupt example_X 0 (run_state example_X [Call_init True 0] (boot [])) = Inr s''
         \<and> pending_at 0 s'')"
proof -
  have i: "bao_io_dispatcher_init example_X True 0 (boot []) =
      Inr (0, run_state example_X [Call_init True 0] (boot []))"
    by (simp add: run_state_def run_defs)
  have ix: "dm_index (run_state example_X [Call_init True 0] (boot [])) 0 = 0"
    by (simp add: run_state_def run_defs)
  from C10_handler_installed_by_init[OF i] i ix show ?thesis by (auto simp: pending_at_def)
qed

end
